theory Spec2Isabelle
  imports Complex_Main "HOL-Library.Log_Nat"
begin

section \<open>The adaptive stepsize of big-batch SGD (adaptive\_stepsize.hpp)\<close>

text \<open>
  Number model. A C++ \<^verbatim>\<open>double\<close> is modelled by a \<^typ>\<open>real\<close>: arithmetic is exact, there
  is no rounding, no overflow and no NaN. Where the source divides by a quantity that can
  be zero, the double result is infinite or NaN; the model does not compute with such
  values but returns the error \<open>NonFinite\<close> at that point (or takes the branch the source
  takes on \<^verbatim>\<open>std::isfinite\<close>). A \<^verbatim>\<open>size_t\<close> is a \<^typ>\<open>nat\<close>; it is converted with
  \<^const>\<open>real\<close> wherever the source converts it to double.

  The line search is modelled a second time with rounding, further below: whether its
  loop stops, and with which stepsize, depends on the rounding and the underflow of the
  double product, and the claims about that are stated of the rounded model.

  An \<^verbatim>\<open>arma::mat\<close> is modelled by the list of its elements. The element-wise operations
  of Armadillo require equal shapes; on lists of equal length the operations below are
  those of Armadillo, and equal shapes of iterate, gradient and previous iterate are a
  precondition of the source. The empty list is the empty matrix.
\<close>

type_synonym mat = "real list"

definition is_empty :: "mat \<Rightarrow> bool" where
  "is_empty m = (m = [])"

definition zeros :: "nat \<Rightarrow> mat" where
  "zeros n = replicate n 0"

definition mat_minus :: "mat \<Rightarrow> mat \<Rightarrow> mat" where
  "mat_minus a b = map2 (-) a b"

definition mat_plus :: "mat \<Rightarrow> mat \<Rightarrow> mat" where
  "mat_plus a b = map2 (+) a b"

definition scalar_times :: "real \<Rightarrow> mat \<Rightarrow> mat" where
  "scalar_times c a = map (\<lambda>x. c * x) a"

definition mat_divide :: "mat \<Rightarrow> real \<Rightarrow> mat" where
  "mat_divide a c = map (\<lambda>x. x / c) a"

text \<open>\<^verbatim>\<open>arma::norm(x, 2)\<close>: the Euclidean norm of the elements (the 2-norm of a
  vector-shaped matrix).\<close>

definition norm2 :: "mat \<Rightarrow> real" where
  "norm2 a = sqrt (sum_list (map (\<lambda>x. x * x) a))"

text \<open>\<^verbatim>\<open>arma::trace(arma::trans(a) * b)\<close>: the sum of the element-wise products.\<close>

definition trace_trans_times :: "mat \<Rightarrow> mat \<Rightarrow> real" where
  "trace_trans_times a b = sum_list (map2 (*) a b)"

text \<open>The objective function, a template parameter of the source: the three operations
  that the code calls. \<^verbatim>\<open>Gradient\<close> returns the matrix it writes to its output argument.
  Both are functions of their arguments only.\<close>

record DecomposableFunctionType =
  Evaluate :: "mat \<Rightarrow> nat \<Rightarrow> nat \<Rightarrow> real"
  Gradient :: "mat \<Rightarrow> nat \<Rightarrow> nat \<Rightarrow> mat"
  NumFunctions :: nat

text \<open>The members of class \<^verbatim>\<open>AdaptiveStepsize\<close>.\<close>

record AdaptiveStepsize =
  iteratePrev :: mat
  backtrackStepSize :: real
  searchParameter :: real

datatype error = NonFinite

subsection \<open>Backtracking (lines 193--218)\<close>

text \<open>
  The \<^verbatim>\<open>while\<close> loop of lines 209--217. Its state is the object and the three variables the
  body assigns: \<^verbatim>\<open>stepSize\<close>, \<^verbatim>\<open>iterateUpdate\<close>, \<^verbatim>\<open>overallObjectiveUpdate\<close>. The loop has
  no bound, so the function is partial: \<open>None\<close> is a loop that runs forever.
\<close>

partial_function (option) Backtracking_loop ::
  "DecomposableFunctionType \<Rightarrow> mat \<Rightarrow> mat \<Rightarrow> real \<Rightarrow> nat \<Rightarrow> nat \<Rightarrow> real \<Rightarrow>
   AdaptiveStepsize \<times> real \<times> mat \<times> real \<Rightarrow> (AdaptiveStepsize \<times> real \<times> mat \<times> real) option"
where
  "Backtracking_loop function iterate gradient gradientNorm offset backtrackingBatchSize
     overallObjective st =
   (case st of (this, stepSize, iterateUpdate, overallObjectiveUpdate) \<Rightarrow>
     if overallObjectiveUpdate >
        overallObjective - searchParameter this * stepSize * gradientNorm
     then
       (let stepSize' = stepSize * backtrackStepSize this;
            iterateUpdate' = mat_minus iterate (scalar_times stepSize' gradient);
            overallObjectiveUpdate' =
              Evaluate function iterateUpdate' offset backtrackingBatchSize
        in Backtracking_loop function iterate gradient gradientNorm offset
             backtrackingBatchSize overallObjective
             (this, stepSize', iterateUpdate', overallObjectiveUpdate'))
     else Some st)"

text \<open>The member function: it takes the object and \<^verbatim>\<open>stepSize\<close> (a reference), and the
  constant arguments; it returns the object and \<^verbatim>\<open>stepSize\<close> as they are on return.\<close>

definition Backtracking ::
  "DecomposableFunctionType \<Rightarrow> AdaptiveStepsize \<Rightarrow> real \<Rightarrow> mat \<Rightarrow> mat \<Rightarrow> real \<Rightarrow> nat \<Rightarrow> nat \<Rightarrow>
   (AdaptiveStepsize \<times> real) option"
where
  "Backtracking function this stepSize iterate gradient gradientNorm offset
     backtrackingBatchSize =
   (let overallObjective = Evaluate function iterate offset backtrackingBatchSize;
        iterateUpdate = mat_minus iterate (scalar_times stepSize gradient);
        overallObjectiveUpdate =
          Evaluate function iterateUpdate offset backtrackingBatchSize
    in map_option (\<lambda>(this', stepSize', _, _). (this', stepSize'))
         (Backtracking_loop function iterate gradient gradientNorm offset
            backtrackingBatchSize overallObjective
            (this, stepSize, iterateUpdate, overallObjectiveUpdate)))"

subsection \<open>Update (lines 72--166)\<close>

text \<open>
  The \<^verbatim>\<open>for\<close> loop of lines 110--125. \<^verbatim>\<open>j\<close> and \<^verbatim>\<open>k\<close> start at 1 and are incremented
  together; the loop state is \<^verbatim>\<open>vB\<close>, \<^verbatim>\<open>delta1\<close>, \<^verbatim>\<open>gradient\<close> and \<^verbatim>\<open>gradPrevIterate\<close>.
  The division by \<^verbatim>\<open>k\<close> is a division by a positive number, since \<^verbatim>\<open>k\<close> starts at 1.
\<close>

function Update_loop ::
  "DecomposableFunctionType \<Rightarrow> mat \<Rightarrow> mat \<Rightarrow> nat \<Rightarrow> nat \<Rightarrow> nat \<Rightarrow> nat \<Rightarrow>
   real \<times> mat \<times> mat \<times> mat \<Rightarrow> real \<times> mat \<times> mat \<times> mat"
where
  "Update_loop function iterate iteratePrev0 offset backtrackingBatchSize j k
     (vB, delta1, gradient, gradPrevIterate) =
   (if j < backtrackingBatchSize then
      (let functionGradient = Gradient function iterate (offset + j) 1;
           delta0 = mat_plus delta1 (mat_divide (mat_minus functionGradient delta1) (real k));
           vB' = vB + norm2 (mat_minus functionGradient delta1) *
                      norm2 (mat_minus functionGradient delta0);
           delta1' = delta0;
           gradient' = mat_plus gradient functionGradient;
           functionGradientPrev = Gradient function iteratePrev0 (offset + j) 1;
           gradPrevIterate' = mat_plus gradPrevIterate functionGradientPrev
       in Update_loop function iterate iteratePrev0 offset backtrackingBatchSize
            (j + 1) (k + 1) (vB', delta1', gradient', gradPrevIterate'))
    else (vB, delta1, gradient, gradPrevIterate))"
  by pat_completeness auto
termination
  by (relation "measure (\<lambda>(function, iterate, iteratePrev0, offset, backtrackingBatchSize, j, k, st).
        backtrackingBatchSize - j)") auto

declare Update_loop.simps [simp del]

text \<open>
  Lines 87--142: the iterate is advanced, the gradients are summed over the backtracking
  batch, and the sample variance, the gradient norm and the curvature \<^verbatim>\<open>v\<close> are computed;
  \<^verbatim>\<open>iteratePrev\<close> is assigned. The values are collected in a record.

  \<^verbatim>\<open>gradient / backtrackingBatchSize\<close> is a division by zero when the batch size is 0: each
  element of a non-empty matrix is then infinite or NaN, and so is the norm.
  \<^verbatim>\<open>vNum / vDenom\<close> is not finite when \<^verbatim>\<open>vDenom\<close> is 0, and the source then takes \<^verbatim>\<open>v = 0\<close>.
\<close>

record estimates =
  e_this :: AdaptiveStepsize
  e_iterate :: mat
  e_gradient :: mat
  e_gradientNorm :: real
  e_sampleVariance :: real
  e_v :: real

definition Update_estimate ::
  "DecomposableFunctionType \<Rightarrow> AdaptiveStepsize \<Rightarrow> real \<Rightarrow> mat \<Rightarrow> mat \<Rightarrow> nat \<Rightarrow> nat \<Rightarrow>
   error + estimates"
where
  "Update_estimate function this stepSize iterate gradient offset backtrackingBatchSize =
   (let iterate1 = mat_minus iterate (scalar_times stepSize gradient);
        iteratePrev1 = (if is_empty (iteratePrev this) then zeros (length iterate1)
                        else iteratePrev this);
        gradient1 = Gradient function iterate1 offset 1;
        gradPrevIterate = Gradient function iteratePrev1 offset 1;
        delta1 = gradient1
    in case Update_loop function iterate1 iteratePrev1 offset backtrackingBatchSize 1 1
              (0, delta1, gradient1, gradPrevIterate) of
         (vB, delta1', gradient2, gradPrevIterate2) \<Rightarrow>
           if backtrackingBatchSize = 0 \<and> gradient2 \<noteq> [] then Inl NonFinite
           else
             (let sampleVariance = vB;
                  gradientNorm =
                    (norm2 (mat_divide gradient2 (real backtrackingBatchSize))) ^ 2;
                  vNum = trace_trans_times (mat_minus iterate1 iteratePrev1)
                           (mat_minus gradient2 gradPrevIterate2);
                  vDenom = (norm2 (mat_minus iterate1 iteratePrev1)) ^ 2;
                  v = (if vDenom = 0 then 0 else vNum / vDenom)
              in Inr \<lparr> e_this = this\<lparr>iteratePrev := iterate1\<rparr>,
                       e_iterate = iterate1,
                       e_gradient = gradient2,
                       e_gradientNorm = gradientNorm,
                       e_sampleVariance = sampleVariance,
                       e_v = v \<rparr>))"

text \<open>
  Lines 146--158, the variable \<^verbatim>\<open>stepSizeDecay\<close>. \<^verbatim>\<open>1 / ((double) batchSize - 1)\<close> is a
  division by zero when \<^verbatim>\<open>batchSize\<close> is 1: the double is infinite, and so is the decay.
\<close>

definition Update_stepSizeDecay ::
  "DecomposableFunctionType \<Rightarrow> real \<Rightarrow> real \<Rightarrow> nat \<Rightarrow> real \<Rightarrow> error + real"
where
  "Update_stepSizeDecay function gradientNorm sampleVariance batchSize v =
   (if gradientNorm \<noteq> 0 \<and> sampleVariance \<noteq> 0 \<and> batchSize \<noteq> 0 \<and> v \<noteq> 0 then
      (if batchSize < NumFunctions function then
         (if real batchSize - 1 = 0 then Inl NonFinite
          else Inr ((1 - (1 / (real batchSize - 1) * sampleVariance) /
                         (real batchSize * gradientNorm)) / v))
       else Inr (1 / v))
    else Inr 0)"

text \<open>
  Lines 161--162, the stepsize smoothing. \<^verbatim>\<open>(double) batchSize / function.NumFunctions()\<close>
  is infinite or NaN when there are no functions.
\<close>

definition Update_smoothing ::
  "DecomposableFunctionType \<Rightarrow> real \<Rightarrow> real \<Rightarrow> nat \<Rightarrow> error + real"
where
  "Update_smoothing function stepSize stepSizeDecay batchSize =
   (if NumFunctions function = 0 then Inl NonFinite
    else
      (let stepSize1 = stepSize * (1 - (real batchSize / real (NumFunctions function)));
           stepSize2 = stepSize1 +
             stepSizeDecay * (real batchSize / real (NumFunctions function))
       in Inr stepSize2))"

text \<open>
  The values \<^verbatim>\<open>Update\<close> leaves in the object and in its five reference arguments.
\<close>

record update_result =
  r_this :: AdaptiveStepsize
  r_stepSize :: real
  r_iterate :: mat
  r_gradient :: mat
  r_gradientNorm :: real
  r_sampleVariance :: real

text \<open>
  \<^verbatim>\<open>Update\<close>. The last argument is the unnamed \<^verbatim>\<open>const bool /* reset */\<close>. The result is
  \<open>None\<close> when one of the two line searches runs forever, \<open>Some (Inl NonFinite)\<close> when a
  division by zero is reached, and \<open>Some (Inr r)\<close> when the call returns with finite
  values.
\<close>

definition Update ::
  "DecomposableFunctionType \<Rightarrow> AdaptiveStepsize \<Rightarrow> real \<Rightarrow> mat \<Rightarrow> mat \<Rightarrow> real \<Rightarrow> real \<Rightarrow>
   nat \<Rightarrow> nat \<Rightarrow> nat \<Rightarrow> bool \<Rightarrow> (error + update_result) option"
where
  "Update function this stepSize iterate gradient gradientNorm sampleVariance offset
     batchSize backtrackingBatchSize reset =
   (case Backtracking function this stepSize iterate gradient gradientNorm offset
           backtrackingBatchSize of
      None \<Rightarrow> None
    | Some (this1, stepSize1) \<Rightarrow>
       (case Update_estimate function this1 stepSize1 iterate gradient offset
               backtrackingBatchSize of
          Inl e \<Rightarrow> Some (Inl e)
        | Inr est \<Rightarrow>
           (case Update_stepSizeDecay function (e_gradientNorm est) (e_sampleVariance est)
                   batchSize (e_v est) of
              Inl e \<Rightarrow> Some (Inl e)
            | Inr stepSizeDecay \<Rightarrow>
               (case Update_smoothing function stepSize1 stepSizeDecay batchSize of
                  Inl e \<Rightarrow> Some (Inl e)
                | Inr stepSize2 \<Rightarrow>
                   map_option
                     (\<lambda>(this3, stepSize3).
                        Inr \<lparr> r_this = this3,
                              r_stepSize = stepSize3,
                              r_iterate = e_iterate est,
                              r_gradient = e_gradient est,
                              r_gradientNorm = e_gradientNorm est,
                              r_sampleVariance = e_sampleVariance est \<rparr>)
                     (Backtracking function (e_this est) stepSize2 (e_iterate est)
                        (e_gradient est) (e_gradientNorm est) offset
                        backtrackingBatchSize)))))"

subsection \<open>Objective functions and objects used as concrete inputs\<close>

text \<open>\<open>f(x) = x\<^sup>2 / 2\<close>, the same for each of the \<open>n\<close> samples: \<^verbatim>\<open>Evaluate\<close> and
  \<^verbatim>\<open>Gradient\<close> ignore the offset and the batch size.\<close>

definition quadratic :: "nat \<Rightarrow> DecomposableFunctionType" where
  "quadratic n =
     \<lparr> Evaluate = (\<lambda>m offset batchSize. sum_list (map (\<lambda>x. x * x) m) / 2),
       Gradient = (\<lambda>m offset batchSize. m),
       NumFunctions = n \<rparr>"

text \<open>\<open>f(x) = |x|\<close>, with the sign as its gradient.\<close>

definition absolute :: "nat \<Rightarrow> DecomposableFunctionType" where
  "absolute n =
     \<lparr> Evaluate = (\<lambda>m offset batchSize. sum_list (map abs m)),
       Gradient = (\<lambda>m offset batchSize. map sgn m),
       NumFunctions = n \<rparr>"

text \<open>\<open>f(x) = x (1 - 2 x)\<^sup>2\<close>, which is not convex; its gradient at 0 is 1.\<close>

definition cubic :: "nat \<Rightarrow> DecomposableFunctionType" where
  "cubic n =
     \<lparr> Evaluate = (\<lambda>m offset batchSize. sum_list (map (\<lambda>x. x * (1 - 2 * x) ^ 2) m)),
       Gradient = (\<lambda>m offset batchSize. map (\<lambda>x. (1 - 2 * x) ^ 2 - 4 * x * (1 - 2 * x)) m),
       NumFunctions = n \<rparr>"

text \<open>Sample \<open>i\<close> is \<open>f\<^sub>i(x) = (x - i)\<^sup>2 / 2\<close>; \<^verbatim>\<open>Evaluate\<close> and \<^verbatim>\<open>Gradient\<close> sum over the
  samples \<open>offset, ..., offset + batchSize - 1\<close>.\<close>

definition shifted :: "nat \<Rightarrow> DecomposableFunctionType" where
  "shifted n =
     \<lparr> Evaluate = (\<lambda>m offset batchSize.
         sum_list (map (\<lambda>i. sum_list (map (\<lambda>x. (x - real i) ^ 2) m) / 2)
                       [offset..<offset + batchSize])),
       Gradient = (\<lambda>m offset batchSize.
         map (\<lambda>x. sum_list (map (\<lambda>i. x - real i) [offset..<offset + batchSize])) m),
       NumFunctions = n \<rparr>"

text \<open>The object as the constructor builds it: no previous iterate, and the given
  backtracking step size and search parameter (by default 0.5 and 0.1).\<close>

definition AdaptiveStepsize_new :: "real \<Rightarrow> real \<Rightarrow> AdaptiveStepsize" where
  "AdaptiveStepsize_new b c =
     \<lparr> iteratePrev = [], backtrackStepSize = b, searchParameter = c \<rparr>"

subsection \<open>Predicates used in the statements\<close>

text \<open>The condition of the \<^verbatim>\<open>while\<close> loop (lines 209--210) as a function of the candidate
  stepsize: the candidate is rejected when the objective at
  \<open>iterate - stepSize * gradient\<close> exceeds the sufficient-decrease bound.\<close>

definition rejected ::
  "DecomposableFunctionType \<Rightarrow> AdaptiveStepsize \<Rightarrow> mat \<Rightarrow> mat \<Rightarrow> real \<Rightarrow> nat \<Rightarrow> nat \<Rightarrow> real \<Rightarrow> bool"
where
  "rejected function this iterate gradient gradientNorm offset backtrackingBatchSize stepSize =
     (Evaluate function (mat_minus iterate (scalar_times stepSize gradient)) offset
        backtrackingBatchSize >
      Evaluate function iterate offset backtrackingBatchSize -
        searchParameter this * stepSize * gradientNorm)"

text \<open>What holds of the state \<open>y\<close> in which the loop stops when it was entered in state
  \<open>st\<close> with \<^verbatim>\<open>iterateUpdate\<close> and \<^verbatim>\<open>overallObjectiveUpdate\<close> computed from \<^verbatim>\<open>stepSize\<close>.\<close>

definition loop_post ::
  "DecomposableFunctionType \<Rightarrow> mat \<Rightarrow> mat \<Rightarrow> real \<Rightarrow> nat \<Rightarrow> nat \<Rightarrow> real \<Rightarrow>
   AdaptiveStepsize \<times> real \<times> mat \<times> real \<Rightarrow> AdaptiveStepsize \<times> real \<times> mat \<times> real \<Rightarrow> bool"
where
  "loop_post f it g gn off bbs obj st y =
    (case st of (this, s, iu, ou) \<Rightarrow> case y of (this', s', iu', ou') \<Rightarrow>
           iu = mat_minus it (scalar_times s g) \<longrightarrow> ou = Evaluate f iu off bbs \<longrightarrow>
           this' = this \<and> iu' = mat_minus it (scalar_times s' g) \<and>
           ou' = Evaluate f iu' off bbs \<and>
           \<not> ou' > obj - searchParameter this * s' * gn \<and>
           (\<exists>n. s' = s * backtrackStepSize this ^ n \<and>
                (\<forall>k<n. Evaluate f (mat_minus it (scalar_times (s * backtrackStepSize this ^ k) g)) off bbs
                          > obj - searchParameter this * (s * backtrackStepSize this ^ k) * gn)))"

subsection \<open>Double arithmetic for the line search\<close>

text \<open>
  In the exact model above a stepsize that is multiplied by \<^verbatim>\<open>backtrackStepSize\<close> again and
  again never becomes 0, and the test of the loop is never affected by rounding. In the
  source both happen, and they decide whether and with which value the loop stops. The
  line search is therefore modelled a second time, with every arithmetic operation of
  lines 205--214 followed by a rounding \<open>rd\<close>, in the order in which the source
  evaluates them. With \<open>rd\<close> the identity this is the exact model; with \<open>rd\<close> the
  rounding of doubles it is the arithmetic of the source.

  \<open>round_even\<close> rounds a real to the nearest integer, a tie to the even one.
  \<open>round_fp p w\<close> rounds a real to the nearest number of the binary floating-point format
  with \<open>p\<close> bits of precision whose smallest positive number is \<open>2\<^sup>-\<^sup>w\<close>: with
  \<open>X = |x| * 2\<^sup>w\<close>, the numbers of the format near \<open>x\<close> are the multiples of
  \<open>2\<^sup>e / 2\<^sup>w\<close>, where \<open>e\<close> is the number of bits of the integer part of \<open>X\<close> beyond \<open>p\<close>
  (0 for the subnormal numbers). \<open>round_double\<close> is the rounding of IEEE 754 doubles
  (53 bits, smallest positive number \<open>2\<^sup>-\<^sup>1\<^sup>0\<^sup>7\<^sup>4\<close>); overflow to infinity is not modelled.
\<close>

definition round_even :: "real \<Rightarrow> int" where
  "round_even z =
     (let f = \<lfloor>z\<rfloor> in
      if z - of_int f < 1/2 then f
      else if z - of_int f > 1/2 then f + 1
      else if even f then f else f + 1)"

definition round_fp :: "nat \<Rightarrow> nat \<Rightarrow> real \<Rightarrow> real" where
  "round_fp p w x =
     (let X = \<bar>x\<bar> * 2 ^ w;
          e = nat (bitlen \<lfloor>X\<rfloor> - int p);
          m = round_even (X / 2 ^ e)
      in sgn x * (of_int m * 2 ^ e / 2 ^ w))"

definition round_double :: "real \<Rightarrow> real" where
  "round_double = round_fp 53 1074"

text \<open>The two matrix operations of the line search, each element rounded.\<close>

definition mat_minus_rd :: "(real \<Rightarrow> real) \<Rightarrow> mat \<Rightarrow> mat \<Rightarrow> mat" where
  "mat_minus_rd rd a b = map2 (\<lambda>x y. rd (x - y)) a b"

definition scalar_times_rd :: "(real \<Rightarrow> real) \<Rightarrow> real \<Rightarrow> mat \<Rightarrow> mat" where
  "scalar_times_rd rd c a = map (\<lambda>x. rd (c * x)) a"

text \<open>The loop of lines 209--217 and the member function, with rounding.\<close>

partial_function (option) Backtracking_loop_rd ::
  "(real \<Rightarrow> real) \<Rightarrow> DecomposableFunctionType \<Rightarrow> mat \<Rightarrow> mat \<Rightarrow> real \<Rightarrow> nat \<Rightarrow> nat \<Rightarrow> real \<Rightarrow>
   AdaptiveStepsize \<times> real \<times> mat \<times> real \<Rightarrow> (AdaptiveStepsize \<times> real \<times> mat \<times> real) option"
where
  "Backtracking_loop_rd rd function iterate gradient gradientNorm offset
     backtrackingBatchSize overallObjective st =
   (case st of (this, stepSize, iterateUpdate, overallObjectiveUpdate) \<Rightarrow>
     if overallObjectiveUpdate >
        rd (overallObjective - rd (rd (searchParameter this * stepSize) * gradientNorm))
     then
       (let stepSize' = rd (stepSize * backtrackStepSize this);
            iterateUpdate' =
              mat_minus_rd rd iterate (scalar_times_rd rd stepSize' gradient);
            overallObjectiveUpdate' =
              Evaluate function iterateUpdate' offset backtrackingBatchSize
        in Backtracking_loop_rd rd function iterate gradient gradientNorm offset
             backtrackingBatchSize overallObjective
             (this, stepSize', iterateUpdate', overallObjectiveUpdate'))
     else Some st)"

definition Backtracking_rd ::
  "(real \<Rightarrow> real) \<Rightarrow> DecomposableFunctionType \<Rightarrow> AdaptiveStepsize \<Rightarrow> real \<Rightarrow> mat \<Rightarrow> mat \<Rightarrow>
   real \<Rightarrow> nat \<Rightarrow> nat \<Rightarrow> (AdaptiveStepsize \<times> real) option"
where
  "Backtracking_rd rd function this stepSize iterate gradient gradientNorm offset
     backtrackingBatchSize =
   (let overallObjective = Evaluate function iterate offset backtrackingBatchSize;
        iterateUpdate = mat_minus_rd rd iterate (scalar_times_rd rd stepSize gradient);
        overallObjectiveUpdate =
          Evaluate function iterateUpdate offset backtrackingBatchSize
    in map_option (\<lambda>(this', stepSize', _, _). (this', stepSize'))
         (Backtracking_loop_rd rd function iterate gradient gradientNorm offset
            backtrackingBatchSize overallObjective
            (this, stepSize, iterateUpdate, overallObjectiveUpdate)))"

text \<open>The stepsize after \<open>n\<close> executions of \<^verbatim>\<open>stepSize *= backtrackStepSize\<close>, the condition of
  the loop as a function of the stepsize, and what holds when the loop stops.\<close>

primrec shrink :: "(real \<Rightarrow> real) \<Rightarrow> real \<Rightarrow> nat \<Rightarrow> real \<Rightarrow> real" where
  "shrink rd b 0 stepSize = stepSize"
| "shrink rd b (Suc n) stepSize = rd (shrink rd b n stepSize * b)"

definition rejected_rd ::
  "(real \<Rightarrow> real) \<Rightarrow> DecomposableFunctionType \<Rightarrow> AdaptiveStepsize \<Rightarrow> mat \<Rightarrow> mat \<Rightarrow> real \<Rightarrow>
   nat \<Rightarrow> nat \<Rightarrow> real \<Rightarrow> bool"
where
  "rejected_rd rd function this iterate gradient gradientNorm offset backtrackingBatchSize
     stepSize =
     (Evaluate function (mat_minus_rd rd iterate (scalar_times_rd rd stepSize gradient))
        offset backtrackingBatchSize >
      rd (Evaluate function iterate offset backtrackingBatchSize -
          rd (rd (searchParameter this * stepSize) * gradientNorm)))"

definition loop_post_rd ::
  "(real \<Rightarrow> real) \<Rightarrow> DecomposableFunctionType \<Rightarrow> mat \<Rightarrow> mat \<Rightarrow> real \<Rightarrow> nat \<Rightarrow> nat \<Rightarrow> real \<Rightarrow>
   AdaptiveStepsize \<times> real \<times> mat \<times> real \<Rightarrow> AdaptiveStepsize \<times> real \<times> mat \<times> real \<Rightarrow> bool"
where
  "loop_post_rd rd f it g gn off bbs obj st y =
    (case st of (this, s, iu, ou) \<Rightarrow> case y of (this', s', iu', ou') \<Rightarrow>
       iu = mat_minus_rd rd it (scalar_times_rd rd s g) \<longrightarrow>
       ou = Evaluate f iu off bbs \<longrightarrow>
       this' = this \<and>
       \<not> Evaluate f (mat_minus_rd rd it (scalar_times_rd rd s' g)) off bbs
           > rd (obj - rd (rd (searchParameter this * s') * gn)) \<and>
       (\<exists>n. s' = shrink rd (backtrackStepSize this) n s \<and>
            (\<forall>k<n. Evaluate f (mat_minus_rd rd it
                       (scalar_times_rd rd (shrink rd (backtrackStepSize this) k s) g)) off bbs
                     > rd (obj - rd (rd (searchParameter this *
                             shrink rd (backtrackStepSize this) k s) * gn)))))"

section \<open>Properties of the line search\<close>

subsection \<open>The loop\<close>

text \<open>Partial correctness of the loop, by the induction rule of the partial function: the
  object is the one it was entered with, the two local variables are those of the last
  candidate, the last candidate passes the test, and it is the first stepsize times a
  power of the backtracking step size, every earlier candidate having been rejected.\<close>

lemma Backtracking_loop_Some:
  assumes "Backtracking_loop f it g gn off bbs obj st = Some y"
  shows "loop_post f it g gn off bbs obj st y"
proof (rule Backtracking_loop.raw_induct[where P = loop_post, OF _ assms])
  fix loop f it g gn off bbs obj st y
  assume IH: "\<And>f it g gn off bbs obj st y. loop f it g gn off bbs obj st = Some y \<Longrightarrow>
     loop_post f it g gn off bbs obj st y"
  and body: "(case st of
        (this, stepSize, iterateUpdate, overallObjectiveUpdate) \<Rightarrow>
          if obj - searchParameter this * stepSize * gn < overallObjectiveUpdate
          then let stepSize' = stepSize * backtrackStepSize this;
                   iterateUpdate' = mat_minus it (scalar_times stepSize' g);
                   overallObjectiveUpdate' = Evaluate f iterateUpdate' off bbs
               in loop f it g gn off bbs obj
                   (this, stepSize', iterateUpdate', overallObjectiveUpdate')
          else Some st) = Some y"
  obtain this s iu ou where st: "st = (this, s, iu, ou)" by (cases st) auto
  obtain this' s' iu' ou' where y: "y = (this', s', iu', ou')" by (cases y) auto
  show "loop_post f it g gn off bbs obj st y"
  proof (cases "ou > obj - searchParameter this * s * gn")
    case False
    with body st have "y = st" by simp
    with st y have eqs: "this' = this" "s' = s" "iu' = iu" "ou' = ou" by simp_all
    have "\<exists>n. s = s * backtrackStepSize this ^ n \<and>
                (\<forall>k<n. Evaluate f (mat_minus it (scalar_times (s * backtrackStepSize this ^ k) g)) off bbs
                          > obj - searchParameter this * (s * backtrackStepSize this ^ k) * gn)"
      by (rule exI[of _ 0]) simp
    with False show ?thesis unfolding st y eqs loop_post_def by simp
  next
    case True
    let ?s1 = "s * backtrackStepSize this"
    let ?iu1 = "mat_minus it (scalar_times ?s1 g)"
    from body st True
    have rec: "loop f it g gn off bbs obj (this, ?s1, ?iu1, Evaluate f ?iu1 off bbs) = Some y"
      by (simp add: Let_def)
    from IH[OF rec] y
    have ih: "this' = this \<and> iu' = mat_minus it (scalar_times s' g) \<and>
           ou' = Evaluate f iu' off bbs \<and>
           \<not> ou' > obj - searchParameter this * s' * gn \<and>
           (\<exists>n. s' = ?s1 * backtrackStepSize this ^ n \<and>
                (\<forall>k<n. Evaluate f (mat_minus it (scalar_times (?s1 * backtrackStepSize this ^ k) g)) off bbs
                          > obj - searchParameter this * (?s1 * backtrackStepSize this ^ k) * gn))"
      by (auto simp: loop_post_def)
    then obtain n where n: "s' = ?s1 * backtrackStepSize this ^ n"
      and rej: "\<forall>k<n. Evaluate f (mat_minus it (scalar_times (?s1 * backtrackStepSize this ^ k) g)) off bbs
                          > obj - searchParameter this * (?s1 * backtrackStepSize this ^ k) * gn"
      by blast
    have "iu = mat_minus it (scalar_times s g) \<Longrightarrow> ou = Evaluate f iu off bbs \<Longrightarrow>
      (\<exists>m. s' = s * backtrackStepSize this ^ m \<and>
                (\<forall>k<m. Evaluate f (mat_minus it (scalar_times (s * backtrackStepSize this ^ k) g)) off bbs
                          > obj - searchParameter this * (s * backtrackStepSize this ^ k) * gn))"
    proof (rule exI[of _ "Suc n"], intro conjI allI impI)
      show "s' = s * backtrackStepSize this ^ Suc n" using n by (simp add: mult.assoc)
    next
      fix k assume inv: "iu = mat_minus it (scalar_times s g)" "ou = Evaluate f iu off bbs"
        and k: "k < Suc n"
      show "Evaluate f (mat_minus it (scalar_times (s * backtrackStepSize this ^ k) g)) off bbs
                          > obj - searchParameter this * (s * backtrackStepSize this ^ k) * gn"
      proof (cases k)
        case 0
        with True inv show ?thesis by simp
      next
        case (Suc j)
        with k rej have "Evaluate f (mat_minus it (scalar_times (?s1 * backtrackStepSize this ^ j) g)) off bbs
                          > obj - searchParameter this * (?s1 * backtrackStepSize this ^ j) * gn"
          by simp
        with Suc show ?thesis by (simp add: mult.assoc)
      qed
    qed
    with ih st y show ?thesis by (auto simp: loop_post_def)
  qed
qed

subsection \<open>The member function\<close>

text \<open>What is known when \<^verbatim>\<open>Backtracking\<close> returns.\<close>

lemma Backtracking_Some:
  assumes "Backtracking f this s it g gn off bbs = Some (this', s')"
  shows "this' = this \<and> \<not> rejected f this it g gn off bbs s' \<and>
         (\<exists>n. s' = s * backtrackStepSize this ^ n \<and>
              (\<forall>k<n. rejected f this it g gn off bbs (s * backtrackStepSize this ^ k)))"
proof -
  let ?obj = "Evaluate f it off bbs"
  let ?iu = "mat_minus it (scalar_times s g)"
  from assms obtain iu' ou' where
    loop: "Backtracking_loop f it g gn off bbs ?obj (this, s, ?iu, Evaluate f ?iu off bbs)
             = Some (this', s', iu', ou')"
    by (auto simp: Backtracking_def Let_def)
  from Backtracking_loop_Some[OF loop] show ?thesis
    by (auto simp: loop_post_def rejected_def)
qed

text \<open>One unfolding of the loop: a candidate that passes the test is returned, a
  rejected candidate is multiplied by the backtracking step size.\<close>

lemma Backtracking_loop_accept:
  assumes "\<not> ou > obj - searchParameter this * s * gn"
  shows "Backtracking_loop f it g gn off bbs obj (this, s, iu, ou) = Some (this, s, iu, ou)"
  using assms by (subst Backtracking_loop.simps) simp

lemma Backtracking_loop_reject:
  assumes "ou > obj - searchParameter this * s * gn"
  shows "Backtracking_loop f it g gn off bbs obj (this, s, iu, ou) =
         Backtracking_loop f it g gn off bbs obj
           (this, s * backtrackStepSize this,
            mat_minus it (scalar_times (s * backtrackStepSize this) g),
            Evaluate f (mat_minus it (scalar_times (s * backtrackStepSize this) g)) off bbs)"
  using assms by (subst Backtracking_loop.simps) (simp add: Let_def)

lemma Backtracking_accept:
  assumes "\<not> rejected f this it g gn off bbs s"
  shows "Backtracking f this s it g gn off bbs = Some (this, s)"
  using assms
  by (simp add: Backtracking_def Let_def rejected_def Backtracking_loop_accept)

lemma Backtracking_reject:
  assumes "rejected f this it g gn off bbs s"
  shows "Backtracking f this s it g gn off bbs =
         Backtracking f this (s * backtrackStepSize this) it g gn off bbs"
  using assms
  by (simp add: Backtracking_def Let_def rejected_def Backtracking_loop_reject)

text \<open>Total correctness: if the candidate number \<open>n\<close> is the first to pass the test,
  the call returns it.\<close>

lemma Backtracking_first_pass:
  assumes "\<forall>k<n. rejected f this it g gn off bbs (s * backtrackStepSize this ^ k)"
    and "\<not> rejected f this it g gn off bbs (s * backtrackStepSize this ^ n)"
  shows "Backtracking f this s it g gn off bbs = Some (this, s * backtrackStepSize this ^ n)"
  using assms
proof (induction n arbitrary: s)
  case 0
  then show ?case by (simp add: Backtracking_accept)
next
  case (Suc n)
  from Suc.prems(1) have r0: "rejected f this it g gn off bbs s" by force
  have "\<forall>k<n. rejected f this it g gn off bbs (s * backtrackStepSize this * backtrackStepSize this ^ k)"
  proof (intro allI impI)
    fix k assume "k < n"
    then have "Suc k < Suc n" by simp
    with Suc.prems(1) have "rejected f this it g gn off bbs (s * backtrackStepSize this ^ Suc k)"
      by blast
    then show "rejected f this it g gn off bbs (s * backtrackStepSize this * backtrackStepSize this ^ k)"
      by (simp add: mult.assoc)
  qed
  moreover from Suc.prems(2)
  have "\<not> rejected f this it g gn off bbs (s * backtrackStepSize this * backtrackStepSize this ^ n)"
    by (simp add: mult.assoc)
  ultimately have "Backtracking f this (s * backtrackStepSize this) it g gn off bbs =
     Some (this, s * backtrackStepSize this * backtrackStepSize this ^ n)"
    by (rule Suc.IH)
  with r0 show ?case by (simp add: Backtracking_reject mult.assoc)
qed


subsection \<open>Claims about the line search\<close>



text \<open>
  C10. Frame of \<^verbatim>\<open>Backtracking\<close>. The object is unchanged on return: the previous iterate,
  the backtracking step size and the search parameter are those of the call. The source
  declares \<^verbatim>\<open>iterate\<close> and \<^verbatim>\<open>gradient\<close> as references to constants and \<^verbatim>\<open>gradientNorm\<close> as a
  constant passed by value; they are arguments of the model, which returns the object and
  \<^verbatim>\<open>stepSize\<close> only, and every iteration of the loop is entered with the same three values.
\<close>

theorem Backtracking_frame:
  assumes "Backtracking function this stepSize iterate gradient gradientNorm offset
             backtrackingBatchSize = Some (this', stepSize')"
  shows "this' = this \<and> iteratePrev this' = iteratePrev this \<and>
         backtrackStepSize this' = backtrackStepSize this \<and>
         searchParameter this' = searchParameter this"
  using Backtracking_Some[OF assms] by simp

theorem Backtracking_frame_witness:
  "Backtracking (quadratic 10) \<lparr>iteratePrev = [5], backtrackStepSize = 1/2, searchParameter = 1/10\<rparr>
     1 [10] [10] 600 0 1 =
     Some (\<lparr>iteratePrev = [5], backtrackStepSize = 1/2, searchParameter = 1/10\<rparr>, 1/2)"
proof -
  let ?A = "\<lparr>iteratePrev = [5], backtrackStepSize = 1/2, searchParameter = 1/10\<rparr>"
  have "\<exists>r. Backtracking (quadratic 10) ?A 1 [10] [10] 600 0 1 = Some (fst r, 1/2)"
    using Backtracking_first_pass[of 1 "quadratic 10" ?A "[10]" "[10]" 600 0 1 1]
    by (simp add: rejected_def quadratic_def mat_minus_def scalar_times_def)
  then obtain r where h: "Backtracking (quadratic 10) ?A 1 [10] [10] 600 0 1 = Some (fst r, 1/2)"
    by blast
  from Backtracking_frame[OF h] h show ?thesis by simp
qed

section \<open>Properties of Update\<close>

subsection \<open>Norms and the sample variance\<close>

lemma norm2_nonneg: "0 \<le> norm2 a"
  by (auto simp: norm2_def intro!: sum_list_nonneg)

lemma norm2_single: "norm2 [x] = \<bar>x\<bar>"
  by (simp add: norm2_def)

text \<open>The loop adds products of two norms to \<^verbatim>\<open>vB\<close>.\<close>

lemma Update_loop_nonneg:
  "0 \<le> fst st \<Longrightarrow> 0 \<le> fst (Update_loop f it ip off bbs j k st)"
proof (induction f it ip off bbs j k st rule: Update_loop.induct)
  case (1 f it ip off bbs j k vB delta1 gradient gradPrevIterate)
  show ?case
  proof (cases "j < bbs")
    case False
    with 1(2) show ?thesis by (simp add: Update_loop.simps)
  next
    case True
    let ?fg = "Gradient f it (off + j) 1"
    let ?delta0 = "mat_plus delta1 (mat_divide (mat_minus ?fg delta1) (real k))"
    let ?vB = "vB + norm2 (mat_minus ?fg delta1) * norm2 (mat_minus ?fg ?delta0)"
    from 1(2) have "0 \<le> ?vB"
      by (simp add: norm2_nonneg)
    then have "0 \<le> fst (?vB, ?delta0, mat_plus gradient ?fg,
                 mat_plus gradPrevIterate (Gradient f ip (off + j) 1))"
      by simp
    from 1(1)[OF True refl refl refl refl refl refl refl this] True
    show ?thesis by (subst Update_loop.simps) (simp add: Let_def)
  qed
qed

lemma Update_estimate_sampleVariance:
  assumes "Update_estimate f this s it g off bbs = Inr est"
  shows "0 \<le> e_sampleVariance est"
proof -
  let ?it1 = "mat_minus it (scalar_times s g)"
  let ?ip = "if is_empty (iteratePrev this) then zeros (length ?it1) else iteratePrev this"
  let ?l = "Update_loop f ?it1 ?ip off bbs 1 1
              (0, Gradient f ?it1 off 1, Gradient f ?it1 off 1, Gradient f ?ip off 1)"
  have "0 \<le> fst ?l" by (rule Update_loop_nonneg) simp
  moreover from assms have "e_sampleVariance est = fst ?l"
    by (auto simp: Update_estimate_def Let_def split: prod.splits if_splits)
  ultimately show ?thesis by simp
qed

text \<open>The steps of a call of \<^verbatim>\<open>Update\<close> that returns with finite values.\<close>

lemma Update_Inr:
  assumes "Update f this s it g gn sv off bs bbs reset = Some (Inr r)"
  shows "\<exists>this1 s1 est d s2 this3 s3.
           Backtracking f this s it g gn off bbs = Some (this1, s1) \<and>
           Update_estimate f this1 s1 it g off bbs = Inr est \<and>
           Update_stepSizeDecay f (e_gradientNorm est) (e_sampleVariance est) bs (e_v est) = Inr d \<and>
           Update_smoothing f s1 d bs = Inr s2 \<and>
           Backtracking f (e_this est) s2 (e_iterate est) (e_gradient est)
             (e_gradientNorm est) off bbs = Some (this3, s3) \<and>
           r = \<lparr> r_this = this3, r_stepSize = s3, r_iterate = e_iterate est,
                 r_gradient = e_gradient est, r_gradientNorm = e_gradientNorm est,
                 r_sampleVariance = e_sampleVariance est \<rparr>"
  using assms
  by (auto simp: Update_def split: option.splits sum.splits prod.splits)

subsection \<open>A call of Update, step by step\<close>

text \<open>
  The objective \<open>shifted 4\<close> (samples \<open>(x - i)\<^sup>2 / 2\<close> for \<open>i = 0, ..., 3\<close>), a new object,
  the stepsize 1/2, the iterate 3, the gradient 2, the gradient norm 4, the offset 0, the
  batch size 2 and the backtracking batch size 3. The first line search accepts 1/2 and
  the iterate becomes 2. The gradients of the samples 0, 1, 2 at 2 are 2, 1, 0: the sample
  variance is \<open>|1 - 2| * |1 - 1| + |0 - 1| * |0 - 1/2| = 1/2\<close>, the summed gradient is 3 and
  the gradient norm \<open>(3/3)\<^sup>2 = 1\<close>. The summed gradient at the previous iterate 0 is \<open>-3\<close>,
  so the curvature is \<open>(2 * 6) / 4 = 3\<close>. The decay is \<open>(1 - (1/2) / 2) / 3 = 1/4\<close>, the
  smoothed stepsize \<open>1/2 * 1/2 + 1/4 * 1/2 = 3/8\<close>, which the second line search accepts.
\<close>

lemma Update_loop_stop:
  "\<not> j < bbs \<Longrightarrow> Update_loop f it ip off bbs j k st = st"
  by (cases st) (simp add: Update_loop.simps)

lemma Update_loop_step:
  "j < bbs \<Longrightarrow>
   Update_loop f it ip off bbs j k (vB, delta1, gradient, gradPrevIterate) =
   Update_loop f it ip off bbs (Suc j) (Suc k)
     (vB + norm2 (mat_minus (Gradient f it (off + j) 1) delta1) *
           norm2 (mat_minus (Gradient f it (off + j) 1)
             (mat_plus delta1
               (mat_divide (mat_minus (Gradient f it (off + j) 1) delta1) (real k)))),
      mat_plus delta1 (mat_divide (mat_minus (Gradient f it (off + j) 1) delta1) (real k)),
      mat_plus gradient (Gradient f it (off + j) 1),
      mat_plus gradPrevIterate (Gradient f ip (off + j) 1))"
  by (subst Update_loop.simps) (simp add: Let_def)

lemma shifted_Evaluate3:
  "Evaluate (shifted n) [x] 0 3 = (x ^ 2 + (x - 1) ^ 2 + (x - 2) ^ 2) / 2"
  by (simp add: shifted_def eval_nat_numeral add_divide_distrib)

lemma shifted_Gradient1: "Gradient (shifted n) [x] i 1 = [x - real i]"
  by (simp add: shifted_def)

lemma shifted_Gradient1': "Gradient (shifted n) [x] i (Suc 0) = [x - real i]"
  by (simp add: shifted_def)

lemma shifted_example_first:
  "Backtracking (shifted 4) (AdaptiveStepsize_new (1/2) (1/10)) (1/2) [3] [2] 4 0 3 =
     Some (AdaptiveStepsize_new (1/2) (1/10), 1/2)"
  by (rule Backtracking_accept)
     (simp add: rejected_def shifted_Evaluate3 mat_minus_def scalar_times_def
        AdaptiveStepsize_new_def power2_eq_square)

lemma shifted_example_loop:
  "Update_loop (shifted 4) [2] [0] 0 3 (Suc 0) (Suc 0) (0, [2], [2], [0]) =
     (1/2, [1/2], [3], [- 3])"
  by (simp add: Update_loop_step Update_loop_stop
      shifted_Gradient1 shifted_Gradient1' mat_minus_def mat_plus_def mat_divide_def norm2_single)

lemma shifted_example_estimate:
  "Update_estimate (shifted 4) (AdaptiveStepsize_new (1/2) (1/10)) (1/2) [3] [2] 0 3 =
     Inr \<lparr> e_this = \<lparr>iteratePrev = [2], backtrackStepSize = 1/2, searchParameter = 1/10\<rparr>,
           e_iterate = [2], e_gradient = [3], e_gradientNorm = 1,
           e_sampleVariance = 1/2, e_v = 3 \<rparr>"
  by (simp add: Update_estimate_def AdaptiveStepsize_new_def is_empty_def zeros_def
      mat_minus_def scalar_times_def shifted_Gradient1 shifted_Gradient1' shifted_example_loop Let_def
      mat_divide_def norm2_single trace_trans_times_def)

lemma shifted_example_decay:
  "Update_stepSizeDecay (shifted 4) 1 (1/2) 2 3 = Inr (1/4)"
  by (simp add: Update_stepSizeDecay_def shifted_def)

lemma shifted_example_smoothing:
  "Update_smoothing (shifted 4) (1/2) (1/4) 2 = Inr (3/8)"
  by (simp add: Update_smoothing_def shifted_def Let_def)

lemma shifted_example_second:
  "Backtracking (shifted 4)
     \<lparr>iteratePrev = [2], backtrackStepSize = 1/2, searchParameter = 1/10\<rparr>
     (3/8) [2] [3] 1 0 3 =
   Some (\<lparr>iteratePrev = [2], backtrackStepSize = 1/2, searchParameter = 1/10\<rparr>, 3/8)"
  by (rule Backtracking_accept)
     (simp add: rejected_def shifted_Evaluate3 mat_minus_def scalar_times_def
        power2_eq_square)

lemma shifted_example:
  "Update (shifted 4) (AdaptiveStepsize_new (1/2) (1/10)) (1/2) [3] [2] 4 0 0 2 3 reset =
     Some (Inr \<lparr> r_this = \<lparr>iteratePrev = [2], backtrackStepSize = 1/2,
                           searchParameter = 1/10\<rparr>,
                 r_stepSize = 3/8, r_iterate = [2], r_gradient = [3],
                 r_gradientNorm = 1, r_sampleVariance = 1/2 \<rparr>)"
  by (simp add: Update_def shifted_example_first shifted_example_estimate
      shifted_example_decay shifted_example_smoothing shifted_example_second)

subsection \<open>Claims about Update\<close>

text \<open>
  C6. Non-negative sample variance. The value that \<^verbatim>\<open>Update\<close> writes to \<^verbatim>\<open>sampleVariance\<close> is
  at least 0, whatever gradients the objective function returns: the value is \<^verbatim>\<open>vB\<close> after
  the loop, which starts at 0 and to which the loop only adds products of two norms.
  This holds of the loop for every iterate, previous iterate and initial sums, and so of
  every call of \<^verbatim>\<open>Update\<close> that returns.
\<close>

theorem Update_sampleVariance_nonneg:
  "0 \<le> fst (Update_loop function iterate1 iteratePrev1 offset backtrackingBatchSize 1 1
              (0, delta1, gradient1, gradPrevIterate)) \<and>
   (Update function this stepSize iterate gradient gradientNorm sampleVariance
      offset batchSize backtrackingBatchSize reset = Some (Inr r)
    \<longrightarrow> 0 \<le> r_sampleVariance r)"
proof (intro conjI impI)
  show "0 \<le> fst (Update_loop function iterate1 iteratePrev1 offset backtrackingBatchSize
                   1 1 (0, delta1, gradient1, gradPrevIterate))"
    by (rule Update_loop_nonneg) simp
next
  assume "Update function this stepSize iterate gradient gradientNorm sampleVariance
            offset batchSize backtrackingBatchSize reset = Some (Inr r)"
  from Update_Inr[OF this] obtain this1 s1 est where
    est: "Update_estimate function this1 s1 iterate gradient offset backtrackingBatchSize
            = Inr est"
    and r: "r_sampleVariance r = e_sampleVariance est"
    by auto
  from Update_estimate_sampleVariance[OF est] r show "0 \<le> r_sampleVariance r" by simp
qed

text \<open>The call of \<^verbatim>\<open>Update\<close> traced above, which leaves the sample variance 1/2.\<close>

theorem Update_sampleVariance_nonneg_witness:
  "Update (shifted 4) (AdaptiveStepsize_new (1/2) (1/10)) (1/2) [3] [2] 4 0 0 2 3 False =
     Some (Inr \<lparr> r_this = \<lparr>iteratePrev = [2], backtrackStepSize = 1/2,
                           searchParameter = 1/10\<rparr>,
                 r_stepSize = 3/8, r_iterate = [2], r_gradient = [3],
                 r_gradientNorm = 1, r_sampleVariance = 1/2 \<rparr>) \<and>
   (0::real) \<le> 1/2"
  using Update_sampleVariance_nonneg[of "shifted 4" "[2]" "[0]" 0 3 "[2]" "[2]" "[0]"
      "AdaptiveStepsize_new (1/2) (1/10)" "1/2" "[3]" "[2]" 4 0 2 False]
    shifted_example[of False]
  by simp

text \<open>
  C2. The stepsize decay of \<^verbatim>\<open>Update\<close> (lines 146--158). It is 0 unless the gradient norm,
  the sample variance, the batch size and the curvature \<open>v\<close> are all different from 0.
  When they all are and the batch size is below the number of functions, it is
  \<open>(1 - (sampleVariance / (batchSize - 1)) / (batchSize * gradientNorm)) / v\<close>; this
  formula divides by zero when the batch size is 1, and the double computed by the source
  is then infinite. When they all are and the batch size is at least the number of
  functions, the decay is \<open>1 / v\<close>.
\<close>

theorem Update_stepSizeDecay_cases:
  "(gradientNorm = 0 \<or> sampleVariance = 0 \<or> batchSize = 0 \<or> v = 0 \<longrightarrow>
      Update_stepSizeDecay function gradientNorm sampleVariance batchSize v = Inr 0) \<and>
   (gradientNorm \<noteq> 0 \<and> sampleVariance \<noteq> 0 \<and> batchSize \<noteq> 0 \<and> v \<noteq> 0 \<and>
    batchSize < NumFunctions function \<and> batchSize \<noteq> 1 \<longrightarrow>
      Update_stepSizeDecay function gradientNorm sampleVariance batchSize v =
        Inr ((1 - (sampleVariance / (real batchSize - 1)) /
                  (real batchSize * gradientNorm)) / v)) \<and>
   (gradientNorm \<noteq> 0 \<and> sampleVariance \<noteq> 0 \<and> batchSize \<noteq> 0 \<and> v \<noteq> 0 \<and>
    batchSize < NumFunctions function \<and> batchSize = 1 \<longrightarrow>
      Update_stepSizeDecay function gradientNorm sampleVariance batchSize v =
        Inl NonFinite) \<and>
   (gradientNorm \<noteq> 0 \<and> sampleVariance \<noteq> 0 \<and> batchSize \<noteq> 0 \<and> v \<noteq> 0 \<and>
    batchSize \<ge> NumFunctions function \<longrightarrow>
      Update_stepSizeDecay function gradientNorm sampleVariance batchSize v = Inr (1 / v))"
proof (intro conjI impI)
  assume "gradientNorm = 0 \<or> sampleVariance = 0 \<or> batchSize = 0 \<or> v = 0"
  then show "Update_stepSizeDecay function gradientNorm sampleVariance batchSize v = Inr 0"
    by (auto simp: Update_stepSizeDecay_def)
next
  assume a: "gradientNorm \<noteq> 0 \<and> sampleVariance \<noteq> 0 \<and> batchSize \<noteq> 0 \<and> v \<noteq> 0 \<and>
    batchSize < NumFunctions function \<and> batchSize \<noteq> 1"
  then have "real batchSize - 1 \<noteq> 0" by simp
  with a show "Update_stepSizeDecay function gradientNorm sampleVariance batchSize v =
        Inr ((1 - (sampleVariance / (real batchSize - 1)) /
                  (real batchSize * gradientNorm)) / v)"
    by (simp add: Update_stepSizeDecay_def)
next
  assume "gradientNorm \<noteq> 0 \<and> sampleVariance \<noteq> 0 \<and> batchSize \<noteq> 0 \<and> v \<noteq> 0 \<and>
    batchSize < NumFunctions function \<and> batchSize = 1"
  then show "Update_stepSizeDecay function gradientNorm sampleVariance batchSize v =
        Inl NonFinite"
    by (simp add: Update_stepSizeDecay_def)
next
  assume "gradientNorm \<noteq> 0 \<and> sampleVariance \<noteq> 0 \<and> batchSize \<noteq> 0 \<and> v \<noteq> 0 \<and>
    batchSize \<ge> NumFunctions function"
  then show "Update_stepSizeDecay function gradientNorm sampleVariance batchSize v =
        Inr (1 / v)"
    by (simp add: Update_stepSizeDecay_def)
qed

text \<open>The four cases at concrete values: a sample variance of 0; the gradient norm 1, the
  sample variance 1/2, the batch size 2 and the curvature 3 with 4 functions
  (\<open>(1 - (1/2) / 2) / 3 = 1/4\<close>); the batch size 1 with 4 functions; and the batch size 2
  with 2 functions.\<close>

theorem Update_stepSizeDecay_cases_witness:
  "Update_stepSizeDecay (shifted 4) 1 0 2 3 = Inr 0 \<and>
   Update_stepSizeDecay (shifted 4) 1 (1/2) 2 3 = Inr (1/4) \<and>
   Update_stepSizeDecay (shifted 4) 1 (1/2) 1 3 = Inl NonFinite \<and>
   Update_stepSizeDecay (shifted 2) 1 (1/2) 2 3 = Inr (1/3)"
  using Update_stepSizeDecay_cases[of 1 0 2 3 "shifted 4"]
    Update_stepSizeDecay_cases[of 1 "1/2" 2 3 "shifted 4"]
    Update_stepSizeDecay_cases[of 1 "1/2" 1 3 "shifted 4"]
    Update_stepSizeDecay_cases[of 1 "1/2" 2 3 "shifted 2"]
  by (simp add: shifted_def)

text \<open>
  C8. The argument \<^verbatim>\<open>reset\<close> has no effect. Two calls of \<^verbatim>\<open>Update\<close> that differ in
  \<^verbatim>\<open>reset\<close> only have the same outcome: both run forever, both reach the same division by
  zero, or both return the same object, stepsize, iterate, gradient, gradient norm and
  sample variance.
\<close>

theorem Update_reset_ignored:
  "Update function this stepSize iterate gradient gradientNorm sampleVariance offset
     batchSize backtrackingBatchSize reset =
   Update function this stepSize iterate gradient gradientNorm sampleVariance offset
     batchSize backtrackingBatchSize reset'"
  by (simp add: Update_def)

subsection \<open>Zero curvature\<close>

text \<open>With the decay 0 the smoothing leaves \<open>stepSize * (1 - batchSize / NumFunctions)\<close>.\<close>

lemma Update_smoothing_zero:
  "NumFunctions f \<noteq> 0 \<Longrightarrow>
   Update_smoothing f s 0 bs = Inr (s * (1 - real bs / real (NumFunctions f)))"
  by (simp add: Update_smoothing_def Let_def)

lemma Update_stepSizeDecay_zero: "Update_stepSizeDecay f gn sv bs 0 = Inr 0"
  by (simp add: Update_stepSizeDecay_def)

text \<open>
  The objective \<open>|x|\<close> with 20 functions, an object whose previous iterate is 3, the
  stepsize 2, the iterate 3, the gradient 1, the gradient norm 1, the batch size 1 and
  the backtracking batch size 1. The first line search accepts 2 (\<open>|3 - 2| \<le> 3 - 0.2\<close>)
  and the iterate becomes 1. The gradients at 1 and at 3 are both 1, so the curvature is
  \<open>((1 - 3) * (1 - 1)) / 4 = 0\<close>, and the smoothed stepsize is \<open>2 * (1 - 1/20) = 19/10\<close>.
  The second line search rejects 19/10 (\<open>|1 - 1.9| > 1 - 0.19\<close>) and accepts 19/20.
\<close>

lemma absolute_Evaluate: "Evaluate (absolute n) [x] off bbs = \<bar>x\<bar>"
  by (simp add: absolute_def)

lemma absolute_Gradient: "Gradient (absolute n) [x] off bbs = [sgn x]"
  by (simp add: absolute_def)

lemma absolute_example_first:
  "Backtracking (absolute 20)
     \<lparr>iteratePrev = [3], backtrackStepSize = 1/2, searchParameter = 1/10\<rparr>
     2 [3] [1] 1 0 1 =
   Some (\<lparr>iteratePrev = [3], backtrackStepSize = 1/2, searchParameter = 1/10\<rparr>, 2)"
  by (rule Backtracking_accept)
     (simp add: rejected_def absolute_Evaluate mat_minus_def scalar_times_def)

lemma absolute_example_estimate:
  "Update_estimate (absolute 20)
     \<lparr>iteratePrev = [3], backtrackStepSize = 1/2, searchParameter = 1/10\<rparr>
     2 [3] [1] 0 1 =
   Inr \<lparr> e_this = \<lparr>iteratePrev = [1], backtrackStepSize = 1/2, searchParameter = 1/10\<rparr>,
         e_iterate = [1], e_gradient = [1], e_gradientNorm = 1,
         e_sampleVariance = 0, e_v = 0 \<rparr>"
  by (simp add: Update_estimate_def is_empty_def mat_minus_def scalar_times_def
      absolute_Gradient Update_loop_stop mat_divide_def norm2_single trace_trans_times_def
      Let_def)

lemma absolute_example_second:
  "Backtracking (absolute 20)
     \<lparr>iteratePrev = [1], backtrackStepSize = 1/2, searchParameter = 1/10\<rparr>
     (19/10) [1] [1] 1 0 1 =
   Some (\<lparr>iteratePrev = [1], backtrackStepSize = 1/2, searchParameter = 1/10\<rparr>, 19/20)"
proof -
  let ?A = "\<lparr>iteratePrev = [1], backtrackStepSize = 1/2, searchParameter = 1/10\<rparr>"
  have r: "\<And>s n bbs. rejected (absolute n) ?A [1] [1] 1 0 bbs s = (1 - s / 10 < \<bar>1 - s\<bar>)"
    by (simp add: rejected_def absolute_Evaluate mat_minus_def scalar_times_def)
  have "\<forall>k<1. rejected (absolute 20) ?A [1] [1] 1 0 1 (19/10 * backtrackStepSize ?A ^ k)"
    by (simp add: r)
  moreover have "\<not> rejected (absolute 20) ?A [1] [1] 1 0 1 (19/10 * backtrackStepSize ?A ^ 1)"
    by (simp add: r)
  ultimately have "Backtracking (absolute 20) ?A (19/10) [1] [1] 1 0 1 =
      Some (?A, 19/10 * backtrackStepSize ?A ^ 1)"
    by (rule Backtracking_first_pass)
  then show ?thesis by simp
qed

lemma absolute_example:
  "Update (absolute 20)
     \<lparr>iteratePrev = [3], backtrackStepSize = 1/2, searchParameter = 1/10\<rparr>
     2 [3] [1] 1 0 0 1 1 reset =
   Some (Inr \<lparr> r_this = \<lparr>iteratePrev = [1], backtrackStepSize = 1/2,
                         searchParameter = 1/10\<rparr>,
               r_stepSize = 19/20, r_iterate = [1], r_gradient = [1],
               r_gradientNorm = 1, r_sampleVariance = 0 \<rparr>)"
proof -
  have "Update_smoothing (absolute 20) 2 0 1 = Inr (19/10)"
    by (simp add: Update_smoothing_def absolute_def Let_def)
  then show ?thesis
    by (simp add: Update_def absolute_example_first absolute_example_estimate
        Update_stepSizeDecay_zero absolute_example_second del: One_nat_def)
qed

text \<open>
  C4. Zero-curvature smoothing. The claim that, when the curvature is 0, the stepsize
  produced by \<^verbatim>\<open>Update\<close> is the stepsize after the first line search times
  \<open>1 - batchSize / NumFunctions\<close> fails, because \<^verbatim>\<open>Update\<close> runs the line search again on
  that product: in the call above the first line search leaves 2, the curvature is 0 and
  there are 20 functions for a batch size of 1, but the stepsize produced is 19/20, not
  \<open>2 * (1 - 1/20) = 19/10\<close>.
\<close>

theorem Update_zero_curvature_counterexample:
  "Backtracking (absolute 20)
     \<lparr>iteratePrev = [3], backtrackStepSize = 1/2, searchParameter = 1/10\<rparr>
     2 [3] [1] 1 0 1 =
   Some (\<lparr>iteratePrev = [3], backtrackStepSize = 1/2, searchParameter = 1/10\<rparr>, 2) \<and>
   Update_estimate (absolute 20)
     \<lparr>iteratePrev = [3], backtrackStepSize = 1/2, searchParameter = 1/10\<rparr>
     2 [3] [1] 0 1 =
   Inr \<lparr> e_this = \<lparr>iteratePrev = [1], backtrackStepSize = 1/2, searchParameter = 1/10\<rparr>,
         e_iterate = [1], e_gradient = [1], e_gradientNorm = 1,
         e_sampleVariance = 0, e_v = 0 \<rparr> \<and>
   Update (absolute 20)
     \<lparr>iteratePrev = [3], backtrackStepSize = 1/2, searchParameter = 1/10\<rparr>
     2 [3] [1] 1 0 0 1 1 False =
   Some (Inr \<lparr> r_this = \<lparr>iteratePrev = [1], backtrackStepSize = 1/2,
                         searchParameter = 1/10\<rparr>,
               r_stepSize = 19/20, r_iterate = [1], r_gradient = [1],
               r_gradientNorm = 1, r_sampleVariance = 0 \<rparr>) \<and>
   (19/20 :: real) \<noteq> 2 * (1 - real 1 / real (NumFunctions (absolute 20)))"
  by (simp add: absolute_example_first absolute_example_estimate absolute_example
        del: One_nat_def)
     (simp add: absolute_def)

text \<open>
  C4, as amended. When the curvature is 0 and there is at least one function, the
  stepsize that the smoothing step computes is exactly the stepsize left by the first
  line search times \<open>1 - batchSize / NumFunctions\<close>: the decay contributes 0. \<^verbatim>\<open>Update\<close>
  then runs the second line search on this value, at the new iterate, gradient and
  gradient norm, and the stepsize it produces is the one this line search returns (it
  does not return when the line search does not).
\<close>

theorem Update_zero_curvature:
  assumes "Backtracking function this stepSize iterate gradient gradientNorm offset
             backtrackingBatchSize = Some (this1, stepSize1)"
    and "Update_estimate function this1 stepSize1 iterate gradient offset
           backtrackingBatchSize = Inr est"
    and "e_v est = 0"
    and "NumFunctions function \<noteq> 0"
  shows "Update_smoothing function stepSize1 0 batchSize =
           Inr (stepSize1 * (1 - real batchSize / real (NumFunctions function))) \<and>
         Update function this stepSize iterate gradient gradientNorm sampleVariance offset
           batchSize backtrackingBatchSize reset =
         map_option
           (\<lambda>(this3, stepSize3).
              Inr \<lparr> r_this = this3, r_stepSize = stepSize3, r_iterate = e_iterate est,
                    r_gradient = e_gradient est, r_gradientNorm = e_gradientNorm est,
                    r_sampleVariance = e_sampleVariance est \<rparr>)
           (Backtracking function (e_this est)
              (stepSize1 * (1 - real batchSize / real (NumFunctions function)))
              (e_iterate est) (e_gradient est) (e_gradientNorm est) offset
              backtrackingBatchSize)"
  using assms
  by (simp add: Update_def Update_stepSizeDecay_zero Update_smoothing_zero)

theorem Update_zero_curvature_witness:
  "Update_smoothing (absolute 20) 2 0 1 = Inr (2 * (1 - real 1 / real 20)) \<and>
   Update (absolute 20)
     \<lparr>iteratePrev = [3], backtrackStepSize = 1/2, searchParameter = 1/10\<rparr>
     2 [3] [1] 1 0 0 1 1 True =
   map_option
     (\<lambda>(this3, stepSize3).
        Inr \<lparr> r_this = this3, r_stepSize = stepSize3, r_iterate = [1],
              r_gradient = [1], r_gradientNorm = 1, r_sampleVariance = 0 \<rparr>)
     (Backtracking (absolute 20)
        \<lparr>iteratePrev = [1], backtrackStepSize = 1/2, searchParameter = 1/10\<rparr>
        (2 * (1 - real 1 / real 20)) [1] [1] 1 0 1)"
  using Update_zero_curvature[OF absolute_example_first absolute_example_estimate,
      where batchSize = 1 and sampleVariance = 0 and reset = True]
  by (simp add: absolute_def del: One_nat_def)

subsection \<open>A call of Update that returns the stepsize 0\<close>

text \<open>
  C9. \<^verbatim>\<open>Update\<close> can return the stepsize 0. The objective \<open>x\<^sup>2 / 2\<close> with 10 functions, a
  new object (backtracking step size 1/2, search parameter 1/10), the stepsize 1, the
  iterate 10, the gradient 10, the gradient norm 100, the batch size 10 and the
  backtracking batch size 1: the first line search accepts 1 (\<open>0 \<le> 50 - 10\<close>) and the
  iterate becomes 0, which is the previous iterate of a new object, so \<^verbatim>\<open>vDenom\<close> is 0 and
  the curvature is replaced by 0. The decay is 0 and the batch size equals the number of
  functions, so the smoothing sets the stepsize to \<open>1 * (1 - 10/10) + 0 = 0\<close>. In the
  second line search both sides of the test are equal (\<open>0 > 0 - 0.1 * 0 * 0\<close> is false),
  so 0 is accepted and \<^verbatim>\<open>Update\<close> returns the stepsize 0.
\<close>

theorem Update_returns_zero_stepSize:
  "Update_estimate (quadratic 10) (AdaptiveStepsize_new (1/2) (1/10)) 1 [10] [10] 0 1 =
     Inr \<lparr> e_this = \<lparr>iteratePrev = [0], backtrackStepSize = 1/2, searchParameter = 1/10\<rparr>,
           e_iterate = [0], e_gradient = [0], e_gradientNorm = 0,
           e_sampleVariance = 0, e_v = 0 \<rparr> \<and>
   Update_smoothing (quadratic 10) 1 0 10 = Inr 0 \<and>
   \<not> rejected (quadratic 10)
       \<lparr>iteratePrev = [0], backtrackStepSize = 1/2, searchParameter = 1/10\<rparr>
       [0] [0] 0 0 1 0 \<and>
   Update (quadratic 10) (AdaptiveStepsize_new (1/2) (1/10)) 1 [10] [10] 100 0 0 10 1 False =
     Some (Inr \<lparr> r_this = \<lparr>iteratePrev = [0], backtrackStepSize = 1/2,
                           searchParameter = 1/10\<rparr>,
                 r_stepSize = 0, r_iterate = [0], r_gradient = [0],
                 r_gradientNorm = 0, r_sampleVariance = 0 \<rparr>)"
proof -
  let ?A = "AdaptiveStepsize_new (1/2) (1/10)"
  let ?A' = "\<lparr>iteratePrev = [0::real], backtrackStepSize = 1/2, searchParameter = 1/10\<rparr>"
  have ev: "\<And>x off bbs. Evaluate (quadratic 10) [x] off bbs = x * x / 2"
    by (simp add: quadratic_def)
  have gr: "\<And>m off bbs. Gradient (quadratic 10) m off bbs = m"
    by (simp add: quadratic_def)
  have first: "Backtracking (quadratic 10) ?A 1 [10] [10] 100 0 1 = Some (?A, 1)"
    by (rule Backtracking_accept)
       (simp add: rejected_def ev mat_minus_def scalar_times_def AdaptiveStepsize_new_def)
  have est: "Update_estimate (quadratic 10) ?A 1 [10] [10] 0 1 =
     Inr \<lparr> e_this = ?A', e_iterate = [0], e_gradient = [0], e_gradientNorm = 0,
           e_sampleVariance = 0, e_v = 0 \<rparr>"
    by (simp add: Update_estimate_def AdaptiveStepsize_new_def is_empty_def zeros_def
        mat_minus_def scalar_times_def gr Update_loop_stop mat_divide_def norm2_single
        trace_trans_times_def Let_def)
  have smooth: "Update_smoothing (quadratic 10) 1 0 10 = Inr 0"
    by (simp add: Update_smoothing_def quadratic_def Let_def)
  have acc: "\<not> rejected (quadratic 10) ?A' [0] [0] 0 0 1 0"
    by (simp add: rejected_def ev mat_minus_def scalar_times_def)
  from acc have second: "Backtracking (quadratic 10) ?A' 0 [0] [0] 0 0 1 = Some (?A', 0)"
    by (rule Backtracking_accept)
  have "Update (quadratic 10) ?A 1 [10] [10] 100 0 0 10 1 False =
     Some (Inr \<lparr> r_this = ?A', r_stepSize = 0, r_iterate = [0], r_gradient = [0],
                 r_gradientNorm = 0, r_sampleVariance = 0 \<rparr>)"
    by (simp add: Update_def first est Update_stepSizeDecay_zero smooth second
        del: One_nat_def)
  with est smooth acc show ?thesis by simp
qed

section \<open>The line search in double arithmetic\<close>

subsection \<open>Rounding\<close>

lemma round_even_of_int: "round_even (of_int k) = k"
  by (simp add: round_even_def)

lemma round_even_ge_floor: "\<lfloor>z\<rfloor> \<le> round_even z"
  by (simp add: round_even_def Let_def)

lemma round_even_nonneg: "0 \<le> z \<Longrightarrow> 0 \<le> round_even z"
proof -
  assume "0 \<le> z"
  then have "0 \<le> \<lfloor>z\<rfloor>" by simp
  with round_even_ge_floor[of z] show ?thesis by linarith
qed

lemma round_even_le_int: "z \<le> of_int k \<Longrightarrow> round_even z \<le> k"
proof -
  assume a: "z \<le> of_int k"
  show ?thesis
  proof (cases "z = of_int k")
    case True
    then show ?thesis by (simp add: round_even_of_int)
  next
    case False
    with a have "z < of_int k" by simp
    then have "\<lfloor>z\<rfloor> < k" by (simp add: floor_less_iff)
    then have "\<lfloor>z\<rfloor> + 1 \<le> k" by simp
    then show ?thesis by (simp add: round_even_def Let_def)
  qed
qed

lemma round_even_half: "round_even (1/2) = 0"
  by (simp add: round_even_def)

lemma round_even_ge_one: "1/2 < z \<Longrightarrow> 1 \<le> round_even z"
proof -
  assume a: "1/2 < z"
  show ?thesis
  proof (cases "1 \<le> z")
    case True
    then have "1 \<le> \<lfloor>z\<rfloor>" by simp
    with round_even_ge_floor[of z] show ?thesis by linarith
  next
    case False
    with a have "\<lfloor>z\<rfloor> = 0" by (simp add: floor_eq_iff)
    with a show ?thesis by (simp add: round_even_def)
  qed
qed

lemma round_fp_zero: "round_fp p w 0 = 0"
  by (simp add: round_fp_def)

lemma round_fp_minus: "round_fp p w (- x) = - round_fp p w x"
  by (simp add: round_fp_def Let_def sgn_minus)

lemma round_fp_nonneg: "0 \<le> x \<Longrightarrow> 0 \<le> round_fp p w x"
  by (simp add: round_fp_def Let_def sgn_if round_even_nonneg)

lemma round_fp_nonpos: "x \<le> 0 \<Longrightarrow> round_fp p w x \<le> 0"
  using round_fp_nonneg[of "- x" p w] by (simp add: round_fp_minus)


lemma round_fp_underflow: "round_fp p w (1 / 2 ^ Suc w) = 0"
proof -
  have X: "\<bar>1 / 2 ^ Suc w :: real\<bar> * 2 ^ w = 1/2" by simp
  have "\<lfloor>1/2 :: real\<rfloor> = 0" by simp
  then show ?thesis
    unfolding round_fp_def X Let_def by (simp add: round_even_half)
qed

lemma round_fp_pow2:
  assumes "k \<le> w" and "1 \<le> p"
  shows "round_fp p w (1 / 2 ^ k) = 1 / 2 ^ k"
proof -
  let ?n = "w - k"
  have X: "\<bar>1 / 2 ^ k :: real\<bar> * 2 ^ w = 2 ^ ?n"
    using assms(1) by (simp add: power_diff)
  have fl: "\<lfloor>2 ^ ?n :: real\<rfloor> = 2 ^ ?n"
    by simp
  have bl: "bitlen (2 ^ ?n) = int ?n + 1"
    using bitlen_pow2[of 1 ?n] by (simp add: bitlen_alt_def)
  define e where "e = nat (int ?n + 1 - int p)"
  have e: "e \<le> ?n" using assms(2) by (simp add: e_def)
  have "(2 ^ ?n :: real) / 2 ^ e = 2 ^ (?n - e)"
    using power_diff[of "2::real" e ?n] e by simp
  then have "(2 ^ ?n :: real) / 2 ^ e = of_int (2 ^ (?n - e))" by simp
  then have m: "round_even ((2 ^ ?n :: real) / 2 ^ e) = 2 ^ (?n - e)"
    by (simp only: round_even_of_int)
  have "(2::real) ^ (?n - e) * 2 ^ e = 2 ^ ?n"
    using e by (simp flip: power_add)
  then have "sgn (1 / 2 ^ k :: real) * (of_int (2 ^ (?n - e)) * 2 ^ e / 2 ^ w) = 1 / 2 ^ k"
    using assms(1) by (simp add: power_diff)
  then show ?thesis
    unfolding round_fp_def X fl bl Let_def e_def[symmetric] m .
qed

lemma round_fp_ge_min:
  assumes "1/2 < x * 2 ^ w" and "1 \<le> p"
  shows "1 / 2 ^ w \<le> round_fp p w x"
proof -
  have xpos: "0 < x"
  proof (rule ccontr)
    assume "\<not> 0 < x"
    then have "x * 2 ^ w \<le> 0" by (simp add: mult_le_0_iff)
    with assms(1) show False by simp
  qed
  let ?X = "\<bar>x\<bar> * 2 ^ w"
  define e where "e = nat (bitlen \<lfloor>?X\<rfloor> - int p)"
  have X: "?X = x * 2 ^ w" using xpos by simp
  have "1/2 < ?X / 2 ^ e"
  proof (cases "e = 0")
    case True
    with assms(1) X show ?thesis by simp
  next
    case False
    then have bl: "int e + int p = bitlen \<lfloor>?X\<rfloor>" by (simp add: e_def)
    with assms(2) have "0 < bitlen \<lfloor>?X\<rfloor>" using False by linarith
    then have fpos: "0 < \<lfloor>?X\<rfloor>" using bitlen_eq_zero_iff[of "\<lfloor>?X\<rfloor>"] by linarith
    from bitlen_bounds[OF fpos] have "2 ^ nat (bitlen \<lfloor>?X\<rfloor> - 1) \<le> \<lfloor>?X\<rfloor>" ..
    moreover have "nat (bitlen \<lfloor>?X\<rfloor> - 1) = e + p - 1" using bl assms(2) by linarith
    ultimately have "(2::int) ^ (e + p - 1) \<le> \<lfloor>?X\<rfloor>" by simp
    moreover have "(2::int) ^ e \<le> 2 ^ (e + p - 1)"
      using assms(2) by (intro power_increasing) auto
    ultimately have "(2::int) ^ e \<le> \<lfloor>?X\<rfloor>" by linarith
    then have "(of_int (2 ^ e) :: real) \<le> of_int \<lfloor>?X\<rfloor>"
      by (simp only: of_int_le_iff)
    then have "(2::real) ^ e \<le> of_int \<lfloor>?X\<rfloor>" by simp
    also have "\<dots> \<le> ?X" by (rule of_int_floor_le)
    finally have "1 \<le> ?X / 2 ^ e" by (simp add: le_divide_eq)
    then show ?thesis by linarith
  qed
  then have "1 \<le> round_even (?X / 2 ^ e)" by (rule round_even_ge_one)
  then have "(1::real) \<le> of_int (round_even (?X / 2 ^ e))" by simp
  moreover have "(1::real) \<le> 2 ^ e" by simp
  ultimately have "(1::real) * 1 \<le> of_int (round_even (?X / 2 ^ e)) * 2 ^ e"
    by (intro mult_mono) auto
  then have "1 / 2 ^ w \<le> of_int (round_even (?X / 2 ^ e)) * 2 ^ e / (2 ^ w :: real)"
    by (simp add: divide_right_mono)
  with xpos show ?thesis
    unfolding round_fp_def Let_def e_def[symmetric] by simp
qed

lemma round_fp_le_pow2:
  assumes "0 \<le> x" and "x \<le> 1 / 2 ^ j" and "j \<le> w" and "1 \<le> p"
  shows "round_fp p w x \<le> 1 / 2 ^ j"
proof (cases "x = 0")
  case True
  then show ?thesis by (simp add: round_fp_zero)
next
  case False
  with assms(1) have xpos: "0 < x" by simp
  let ?X = "\<bar>x\<bar> * 2 ^ w"
  let ?n = "w - j"
  define e where "e = nat (bitlen \<lfloor>?X\<rfloor> - int p)"
  have X: "?X = x * 2 ^ w" using xpos by simp
  have pw: "(2::real) ^ ?n = 2 ^ w / 2 ^ j"
    using power_diff[of "2::real" j w] assms(3) by simp
  have "x * 2 ^ w \<le> 1 / 2 ^ j * 2 ^ w"
    using assms(2) by (intro mult_right_mono) auto
  with X pw have Xle: "?X \<le> 2 ^ ?n" by simp
  then have "\<lfloor>?X\<rfloor> \<le> \<lfloor>2 ^ ?n :: real\<rfloor>" by (rule floor_mono)
  also have "\<lfloor>2 ^ ?n :: real\<rfloor> = 2 ^ ?n"
    by simp
  finally have fle: "\<lfloor>?X\<rfloor> \<le> 2 ^ ?n" .
  have e: "e \<le> ?n"
  proof (rule ccontr)
    assume "\<not> e \<le> ?n"
    then have "int ?n + 2 \<le> bitlen \<lfloor>?X\<rfloor>" using assms(4) by (simp add: e_def)
    then have "(2::int) ^ (nat (int ?n + 2) - 1) \<le> \<lfloor>?X\<rfloor>"
      using bitlen_ge_iff_power[of "int ?n + 2" "\<lfloor>?X\<rfloor>"] by simp
    moreover have "nat (int ?n + 2) - 1 = Suc ?n" by simp
    ultimately have "(2::int) ^ Suc ?n \<le> 2 ^ ?n" using fle by (simp only:)
    then show False by simp
  qed
  have "?X / 2 ^ e \<le> 2 ^ ?n / 2 ^ e" using Xle by (simp add: divide_right_mono)
  also have "(2 ^ ?n :: real) / 2 ^ e = 2 ^ (?n - e)"
    using power_diff[of "2::real" e ?n] e by simp
  also have "(2::real) ^ (?n - e) = of_int (2 ^ (?n - e))" by simp
  finally have "round_even (?X / 2 ^ e) \<le> 2 ^ (?n - e)" by (rule round_even_le_int)
  then have "(of_int (round_even (?X / 2 ^ e)) :: real) \<le> of_int (2 ^ (?n - e))"
    by (simp only: of_int_le_iff)
  then have "(of_int (round_even (?X / 2 ^ e)) :: real) \<le> 2 ^ (?n - e)" by simp
  then have "(of_int (round_even (?X / 2 ^ e)) :: real) * 2 ^ e \<le> 2 ^ (?n - e) * 2 ^ e"
    by (simp add: mult_right_mono)
  also have "(2::real) ^ (?n - e) * 2 ^ e = 2 ^ ?n" using e by (simp flip: power_add)
  finally have "of_int (round_even (?X / 2 ^ e)) * 2 ^ e / (2 ^ w :: real) \<le> 2 ^ ?n / 2 ^ w"
    by (simp add: divide_right_mono)
  also have "(2::real) ^ ?n / 2 ^ w = 1 / 2 ^ j" using pw by simp
  finally have "of_int (round_even (?X / 2 ^ e)) * 2 ^ e / (2 ^ w :: real) \<le> 1 / 2 ^ j" .
  with xpos show ?thesis
    unfolding round_fp_def Let_def e_def[symmetric] by simp
qed

lemma round_even_le_floor_Suc: "round_even z \<le> \<lfloor>z\<rfloor> + 1"
  by (simp add: round_even_def Let_def)

lemma round_even_mono:
  assumes "z \<le> z'"
  shows "round_even z \<le> round_even z'"
proof (cases "\<lfloor>z\<rfloor> = \<lfloor>z'\<rfloor>")
  case True
  from assms have "z - of_int \<lfloor>z'\<rfloor> \<le> z' - of_int \<lfloor>z'\<rfloor>" by simp
  then show ?thesis
    unfolding round_even_def Let_def True by auto
next
  case False
  from assms have "\<lfloor>z\<rfloor> \<le> \<lfloor>z'\<rfloor>" by (rule floor_mono)
  with False have "\<lfloor>z\<rfloor> + 1 \<le> \<lfloor>z'\<rfloor>" by simp
  with round_even_le_floor_Suc[of z] round_even_ge_floor[of z'] show ?thesis by linarith
qed

text \<open>Rounding is monotone. Within one binade this is the monotonicity of
  \<open>round_even\<close>; across binades the smaller number is rounded to at most the power of
  two that separates them, and the greater one to at least that power.\<close>

lemma bitlen_floor_mono:
  assumes "0 \<le> X" and "X \<le> Y"
  shows "bitlen \<lfloor>X\<rfloor> \<le> bitlen \<lfloor>Y :: real\<rfloor>"
proof (cases "0 < \<lfloor>Y\<rfloor>")
  case True
  from assms(2) have "\<lfloor>X\<rfloor> \<le> \<lfloor>Y\<rfloor>" by (rule floor_mono)
  also from bitlen_bounds[OF True] have "\<lfloor>Y\<rfloor> < 2 ^ nat (bitlen \<lfloor>Y\<rfloor>)" ..
  finally show ?thesis
    using bitlen_le_iff_power[of "\<lfloor>X\<rfloor>" "bitlen \<lfloor>Y\<rfloor>"] bitlen_nonneg[of "\<lfloor>Y\<rfloor>"] by simp
next
  case False
  from assms(2) have "\<lfloor>X\<rfloor> \<le> \<lfloor>Y\<rfloor>" by (rule floor_mono)
  with False have "\<lfloor>X\<rfloor> \<le> 0" by linarith
  then have "bitlen \<lfloor>X\<rfloor> = 0" by (simp only: bitlen_eq_zero_iff)
  then show ?thesis by (simp add: bitlen_nonneg)
qed

lemma round_fp_scaled_mono:
  fixes X Y :: real
  assumes "0 \<le> X" and "X \<le> Y" and "1 \<le> p"
  shows "of_int (round_even (X / 2 ^ nat (bitlen \<lfloor>X\<rfloor> - int p))) * 2 ^ nat (bitlen \<lfloor>X\<rfloor> - int p)
       \<le> (of_int (round_even (Y / 2 ^ nat (bitlen \<lfloor>Y\<rfloor> - int p))) * 2 ^ nat (bitlen \<lfloor>Y\<rfloor> - int p) :: real)"
proof -
  define e where "e = nat (bitlen \<lfloor>X\<rfloor> - int p)"
  define e' where "e' = nat (bitlen \<lfloor>Y\<rfloor> - int p)"
  have ee: "e \<le> e'"
    using bitlen_floor_mono[OF assms(1,2)] by (simp add: e_def e'_def)
  show ?thesis
    unfolding e_def[symmetric] e'_def[symmetric]
  proof (cases "e = e'")
    case True
    from assms(2) have "X / 2 ^ e' \<le> Y / 2 ^ e'" by (simp add: divide_right_mono)
    then have "round_even (X / 2 ^ e') \<le> round_even (Y / 2 ^ e')" by (rule round_even_mono)
    then have "(of_int (round_even (X / 2 ^ e')) :: real) \<le> of_int (round_even (Y / 2 ^ e'))"
      by simp
    then show "of_int (round_even (X / 2 ^ e)) * 2 ^ e
         \<le> (of_int (round_even (Y / 2 ^ e')) * 2 ^ e' :: real)"
      unfolding True by (simp add: mult_right_mono)
  next
    case False
    with ee have lt: "Suc e \<le> e'" by simp
    \<comment> \<open>the smaller number is rounded to at most \<open>2 ^ (e + p)\<close>\<close>
    have "bitlen \<lfloor>X\<rfloor> \<le> int (e + p)" by (simp add: e_def)
    then have "\<lfloor>X\<rfloor> < 2 ^ (e + p)"
      using bitlen_le_iff_power[of "\<lfloor>X\<rfloor>" "int (e + p)"] by (simp add: nat_int_add)
    then have "\<lfloor>X\<rfloor> + 1 \<le> 2 ^ (e + p)" by simp
    then have "(of_int (\<lfloor>X\<rfloor> + 1) :: real) \<le> of_int (2 ^ (e + p))"
      by (simp only: of_int_le_iff)
    then have "real_of_int \<lfloor>X\<rfloor> + 1 \<le> 2 ^ (e + p)" by simp
    moreover have "X < real_of_int \<lfloor>X\<rfloor> + 1" by linarith
    ultimately have "X \<le> 2 ^ (e + p)" by linarith
    then have "X / 2 ^ e \<le> 2 ^ (e + p) / 2 ^ e" by (simp add: divide_right_mono)
    also have "(2::real) ^ (e + p) / 2 ^ e = of_int (2 ^ p)" by (simp add: power_add)
    finally have "round_even (X / 2 ^ e) \<le> 2 ^ p" by (rule round_even_le_int)
    then have "(of_int (round_even (X / 2 ^ e)) :: real) \<le> of_int (2 ^ p)"
      by (simp only: of_int_le_iff)
    then have "(of_int (round_even (X / 2 ^ e)) :: real) * 2 ^ e \<le> 2 ^ p * 2 ^ e"
      by (simp add: mult_right_mono)
    also have "(2::real) ^ p * 2 ^ e = 2 ^ (e + p)" by (simp add: power_add)
    finally have upper: "(of_int (round_even (X / 2 ^ e)) :: real) * 2 ^ e \<le> 2 ^ (e + p)" .
    \<comment> \<open>the greater one to at least \<open>2 ^ (e' + p - 1)\<close>\<close>
    from lt have e'pos: "0 < e'" by simp
    then have bl: "bitlen \<lfloor>Y\<rfloor> = int e' + int p" by (simp add: e'_def)
    with assms(3) have "0 < bitlen \<lfloor>Y\<rfloor>" by linarith
    then have fpos: "0 < \<lfloor>Y\<rfloor>" using bitlen_eq_zero_iff[of "\<lfloor>Y\<rfloor>"] by linarith
    from bitlen_bounds[OF fpos] have "2 ^ nat (bitlen \<lfloor>Y\<rfloor> - 1) \<le> \<lfloor>Y\<rfloor>" ..
    moreover have "nat (bitlen \<lfloor>Y\<rfloor> - 1) = e' + (p - 1)" using bl assms(3) by linarith
    ultimately have "(2::int) ^ (e' + (p - 1)) \<le> \<lfloor>Y\<rfloor>" by simp
    then have "(of_int (2 ^ (e' + (p - 1))) :: real) \<le> of_int \<lfloor>Y\<rfloor>"
      by (simp only: of_int_le_iff)
    also have "\<dots> \<le> Y" by (rule of_int_floor_le)
    finally have "(2::real) ^ (e' + (p - 1)) \<le> Y" by simp
    then have "(2::real) ^ (e' + (p - 1)) / 2 ^ e' \<le> Y / 2 ^ e'"
      by (simp add: divide_right_mono)
    moreover have "(2::real) ^ (e' + (p - 1)) / 2 ^ e' = of_int (2 ^ (p - 1))"
      by (simp add: power_add)
    ultimately have "(of_int (2 ^ (p - 1)) :: real) \<le> Y / 2 ^ e'" by simp
    then have "2 ^ (p - 1) \<le> \<lfloor>Y / 2 ^ e'\<rfloor>" by (simp only: le_floor_iff)
    with round_even_ge_floor[of "Y / 2 ^ e'"]
    have "2 ^ (p - 1) \<le> round_even (Y / 2 ^ e')" by linarith
    then have "(of_int (2 ^ (p - 1)) :: real) \<le> of_int (round_even (Y / 2 ^ e'))"
      by (simp only: of_int_le_iff)
    then have "(2::real) ^ (p - 1) \<le> of_int (round_even (Y / 2 ^ e'))" by simp
    then have "(2::real) ^ (p - 1) * 2 ^ e' \<le> of_int (round_even (Y / 2 ^ e')) * 2 ^ e'"
      by (rule mult_right_mono) simp
    moreover have eq: "(2::real) ^ (p - 1) * 2 ^ e' = 2 ^ (e' + (p - 1))"
      by (simp add: power_add)
    ultimately have lower: "(2::real) ^ (e' + (p - 1)) \<le> of_int (round_even (Y / 2 ^ e')) * 2 ^ e'"
      by (simp only: eq)
    have "e + p \<le> e' + (p - 1)" using lt assms(3) by simp
    then have "(2::real) ^ (e + p) \<le> 2 ^ (e' + (p - 1))" by (intro power_increasing) auto
    with upper lower show "of_int (round_even (X / 2 ^ e)) * 2 ^ e
         \<le> (of_int (round_even (Y / 2 ^ e')) * 2 ^ e' :: real)"
      by linarith
  qed
qed

lemma round_fp_mono_nonneg:
  assumes "0 \<le> x" and "x \<le> y" and "1 \<le> p"
  shows "round_fp p w x \<le> round_fp p w y"
proof (cases "x = 0")
  case True
  with assms show ?thesis by (simp add: round_fp_zero round_fp_nonneg)
next
  case False
  with assms have xpos: "0 < x" and ypos: "0 < y" by simp_all
  have "0 \<le> \<bar>x\<bar> * 2 ^ w" by simp
  moreover have "\<bar>x\<bar> * 2 ^ w \<le> \<bar>y\<bar> * 2 ^ w"
    using assms xpos ypos by (simp add: mult_right_mono)
  ultimately have "of_int (round_even (\<bar>x\<bar> * 2 ^ w / 2 ^ nat (bitlen \<lfloor>\<bar>x\<bar> * 2 ^ w\<rfloor> - int p))) *
        2 ^ nat (bitlen \<lfloor>\<bar>x\<bar> * 2 ^ w\<rfloor> - int p)
      \<le> (of_int (round_even (\<bar>y\<bar> * 2 ^ w / 2 ^ nat (bitlen \<lfloor>\<bar>y\<bar> * 2 ^ w\<rfloor> - int p))) *
        2 ^ nat (bitlen \<lfloor>\<bar>y\<bar> * 2 ^ w\<rfloor> - int p) :: real)"
    using assms(3) by (rule round_fp_scaled_mono)
  then have "of_int (round_even (\<bar>x\<bar> * 2 ^ w / 2 ^ nat (bitlen \<lfloor>\<bar>x\<bar> * 2 ^ w\<rfloor> - int p))) *
        2 ^ nat (bitlen \<lfloor>\<bar>x\<bar> * 2 ^ w\<rfloor> - int p) / 2 ^ w
      \<le> (of_int (round_even (\<bar>y\<bar> * 2 ^ w / 2 ^ nat (bitlen \<lfloor>\<bar>y\<bar> * 2 ^ w\<rfloor> - int p))) *
        2 ^ nat (bitlen \<lfloor>\<bar>y\<bar> * 2 ^ w\<rfloor> - int p) / 2 ^ w :: real)"
    by (simp add: divide_right_mono)
  with xpos ypos show ?thesis
    unfolding round_fp_def Let_def by simp
qed

lemma round_fp_mono:
  assumes "x \<le> y" and "1 \<le> p"
  shows "round_fp p w x \<le> round_fp p w y"
proof (cases "0 \<le> x")
  case True
  then show ?thesis using assms by (rule round_fp_mono_nonneg)
next
  case False
  show ?thesis
  proof (cases "0 \<le> y")
    case True
    from False have "round_fp p w x \<le> 0" by (simp add: round_fp_nonpos)
    also from True have "0 \<le> round_fp p w y" by (rule round_fp_nonneg)
    finally show ?thesis .
  next
    case y: False
    then have "0 \<le> - y" by simp
    moreover from assms(1) have "- y \<le> - x" by simp
    ultimately have "round_fp p w (- y) \<le> round_fp p w (- x)"
      using assms(2) by (rule round_fp_mono_nonneg)
    then show ?thesis by (simp add: round_fp_minus)
  qed
qed

subsection \<open>The loop with rounding\<close>

lemma shrink_Suc_shift: "shrink rd b (Suc n) s = shrink rd b n (rd (s * b))"
  by (induction n) simp_all

lemma Backtracking_loop_rd_Some:
  assumes "Backtracking_loop_rd rd f it g gn off bbs obj st = Some y"
  shows "loop_post_rd rd f it g gn off bbs obj st y"
proof (rule Backtracking_loop_rd.raw_induct[where P = loop_post_rd, OF _ assms])
  fix loop rd f it g gn off bbs obj st y
  assume IH: "\<And>rd f it g gn off bbs obj st y. loop rd f it g gn off bbs obj st = Some y \<Longrightarrow>
     loop_post_rd rd f it g gn off bbs obj st y"
  and body: "(case st of
        (this, stepSize, iterateUpdate, overallObjectiveUpdate) \<Rightarrow>
          if rd (obj - rd (rd (searchParameter this * stepSize) * gn)) < overallObjectiveUpdate
          then let stepSize' = rd (stepSize * backtrackStepSize this);
                   iterateUpdate' = mat_minus_rd rd it (scalar_times_rd rd stepSize' g);
                   overallObjectiveUpdate' = Evaluate f iterateUpdate' off bbs
               in loop rd f it g gn off bbs obj
                   (this, stepSize', iterateUpdate', overallObjectiveUpdate')
          else Some st) = Some y"
  obtain this s iu ou where st: "st = (this, s, iu, ou)" by (cases st) auto
  obtain this' s' iu' ou' where y: "y = (this', s', iu', ou')" by (cases y) auto
  let ?b = "backtrackStepSize this"
  let ?test = "\<lambda>s. Evaluate f (mat_minus_rd rd it (scalar_times_rd rd s g)) off bbs
                 > rd (obj - rd (rd (searchParameter this * s) * gn))"
  show "loop_post_rd rd f it g gn off bbs obj st y"
  proof (cases "ou > rd (obj - rd (rd (searchParameter this * s) * gn))")
    case False
    with body st have "y = st" by simp
    with st y have eqs: "this' = this" "s' = s" "iu' = iu" "ou' = ou" by simp_all
    have "\<exists>n. s = shrink rd ?b n s \<and> (\<forall>k<n. ?test (shrink rd ?b k s))"
      by (rule exI[of _ 0]) simp
    with False show ?thesis unfolding st y eqs loop_post_rd_def by auto
  next
    case True
    let ?s1 = "rd (s * ?b)"
    let ?iu1 = "mat_minus_rd rd it (scalar_times_rd rd ?s1 g)"
    from body st True
    have rec: "loop rd f it g gn off bbs obj (this, ?s1, ?iu1, Evaluate f ?iu1 off bbs) = Some y"
      by (simp add: Let_def)
    from IH[OF rec] y
    have ih: "this' = this \<and> \<not> ?test s' \<and>
           (\<exists>n. s' = shrink rd ?b n ?s1 \<and> (\<forall>k<n. ?test (shrink rd ?b k ?s1)))"
      by (auto simp: loop_post_rd_def)
    then obtain n where n: "s' = shrink rd ?b n ?s1"
      and rej: "\<forall>k<n. ?test (shrink rd ?b k ?s1)"
      by blast
    have "iu = mat_minus_rd rd it (scalar_times_rd rd s g) \<Longrightarrow> ou = Evaluate f iu off bbs \<Longrightarrow>
      (\<exists>m. s' = shrink rd ?b m s \<and> (\<forall>k<m. ?test (shrink rd ?b k s)))"
    proof (rule exI[of _ "Suc n"], intro conjI allI impI)
      show "s' = shrink rd ?b (Suc n) s" using n by (simp only: shrink_Suc_shift)
    next
      fix k assume inv: "iu = mat_minus_rd rd it (scalar_times_rd rd s g)"
          "ou = Evaluate f iu off bbs"
        and k: "k < Suc n"
      show "?test (shrink rd ?b k s)"
      proof (cases k)
        case 0
        with True inv show ?thesis by simp
      next
        case (Suc j)
        with k rej have "?test (shrink rd ?b j ?s1)" by simp
        with Suc show ?thesis by (simp only: shrink_Suc_shift)
      qed
    qed
    with ih st y show ?thesis by (auto simp: loop_post_rd_def)
  qed
qed

lemma Backtracking_rd_Some:
  assumes "Backtracking_rd rd f this s it g gn off bbs = Some (this', s')"
  shows "this' = this \<and> \<not> rejected_rd rd f this it g gn off bbs s' \<and>
         (\<exists>n. s' = shrink rd (backtrackStepSize this) n s \<and>
              (\<forall>k<n. rejected_rd rd f this it g gn off bbs
                       (shrink rd (backtrackStepSize this) k s)))"
proof -
  let ?obj = "Evaluate f it off bbs"
  let ?iu = "mat_minus_rd rd it (scalar_times_rd rd s g)"
  from assms obtain iu' ou' where
    loop: "Backtracking_loop_rd rd f it g gn off bbs ?obj (this, s, ?iu, Evaluate f ?iu off bbs)
             = Some (this', s', iu', ou')"
    by (auto simp: Backtracking_rd_def Let_def)
  from Backtracking_loop_rd_Some[OF loop] show ?thesis
    by (auto simp: loop_post_rd_def rejected_rd_def)
qed

lemma Backtracking_loop_rd_accept:
  assumes "\<not> ou > rd (obj - rd (rd (searchParameter this * s) * gn))"
  shows "Backtracking_loop_rd rd f it g gn off bbs obj (this, s, iu, ou) = Some (this, s, iu, ou)"
  using assms by (subst Backtracking_loop_rd.simps) simp

lemma Backtracking_loop_rd_reject:
  assumes "ou > rd (obj - rd (rd (searchParameter this * s) * gn))"
  shows "Backtracking_loop_rd rd f it g gn off bbs obj (this, s, iu, ou) =
         Backtracking_loop_rd rd f it g gn off bbs obj
           (this, rd (s * backtrackStepSize this),
            mat_minus_rd rd it (scalar_times_rd rd (rd (s * backtrackStepSize this)) g),
            Evaluate f (mat_minus_rd rd it
              (scalar_times_rd rd (rd (s * backtrackStepSize this)) g)) off bbs)"
  using assms by (subst Backtracking_loop_rd.simps) (simp add: Let_def)

lemma Backtracking_rd_accept:
  assumes "\<not> rejected_rd rd f this it g gn off bbs s"
  shows "Backtracking_rd rd f this s it g gn off bbs = Some (this, s)"
  using assms
  by (simp add: Backtracking_rd_def Let_def rejected_rd_def Backtracking_loop_rd_accept)

lemma Backtracking_rd_reject:
  assumes "rejected_rd rd f this it g gn off bbs s"
  shows "Backtracking_rd rd f this s it g gn off bbs =
         Backtracking_rd rd f this (rd (s * backtrackStepSize this)) it g gn off bbs"
  using assms
  by (simp add: Backtracking_rd_def Let_def rejected_rd_def Backtracking_loop_rd_reject)

lemma Backtracking_rd_first_pass:
  assumes "\<forall>k<n. rejected_rd rd f this it g gn off bbs (shrink rd (backtrackStepSize this) k s)"
    and "\<not> rejected_rd rd f this it g gn off bbs (shrink rd (backtrackStepSize this) n s)"
  shows "Backtracking_rd rd f this s it g gn off bbs =
           Some (this, shrink rd (backtrackStepSize this) n s)"
  using assms
proof (induction n arbitrary: s)
  case 0
  then show ?case by (simp add: Backtracking_rd_accept)
next
  case (Suc n)
  let ?b = "backtrackStepSize this"
  from Suc.prems(1) have "rejected_rd rd f this it g gn off bbs (shrink rd ?b 0 s)" by blast
  then have r0: "rejected_rd rd f this it g gn off bbs s" by simp
  have "\<forall>k<n. rejected_rd rd f this it g gn off bbs (shrink rd ?b k (rd (s * ?b)))"
  proof (intro allI impI)
    fix k assume "k < n"
    then have "Suc k < Suc n" by simp
    with Suc.prems(1) have "rejected_rd rd f this it g gn off bbs (shrink rd ?b (Suc k) s)"
      by blast
    then show "rejected_rd rd f this it g gn off bbs (shrink rd ?b k (rd (s * ?b)))"
      by (simp only: shrink_Suc_shift)
  qed
  moreover from Suc.prems(2)[unfolded shrink_Suc_shift]
  have "\<not> rejected_rd rd f this it g gn off bbs (shrink rd ?b n (rd (s * ?b)))" .
  ultimately have "Backtracking_rd rd f this (rd (s * ?b)) it g gn off bbs =
     Some (this, shrink rd ?b n (rd (s * ?b)))"
    by (rule Suc.IH)
  with r0 show ?case by (simp only: Backtracking_rd_reject shrink_Suc_shift)
qed


subsection \<open>Exact arithmetic as an instance\<close>






subsection \<open>Line searches in double arithmetic\<close>

lemma absolute_Evaluate_rd: "Evaluate (absolute n) [x] off bbs = \<bar>x\<bar>"
  by (simp add: absolute_def)

text \<open>The objective \<open>|x|\<close> at the iterate 0 with the gradient 1 and the gradient norm 1: a
  stepsize that is at least the smallest positive number of the format is rejected,
  whatever the search parameter \<open>c \<ge> 0\<close>: the objective at the new iterate is positive
  and the bound is at most 0. The stepsize 0 is accepted.\<close>

lemma absolute_rejected_rd:
  assumes "1 \<le> p" and "0 \<le> c" and "1 / 2 ^ w \<le> s"
  shows "rejected_rd (round_fp p w) (absolute n)
           \<lparr>iteratePrev = ip, backtrackStepSize = b, searchParameter = c\<rparr>
           [0] [1] 1 off bbs s"
proof -
  let ?rd = "round_fp p w"
  have d: "(0::real) < 1 / 2 ^ w" by simp
  have half: "\<And>x::real. 1 / 2 ^ w \<le> x \<Longrightarrow> 1/2 < x * 2 ^ w"
  proof -
    fix x :: real assume "1 / 2 ^ w \<le> x"
    then have "1 / 2 ^ w * 2 ^ w \<le> x * 2 ^ w" by (intro mult_right_mono) auto
    then show "1/2 < x * 2 ^ w" by simp
  qed
  have r1: "1 / 2 ^ w \<le> ?rd s"
    using half[OF assms(3)] assms(1) by (rule round_fp_ge_min)
  have r2: "1 / 2 ^ w \<le> ?rd (?rd s)"
    using half[OF r1] assms(1) by (rule round_fp_ge_min)
  from r2 d have r2': "0 \<le> ?rd (?rd s)" by linarith
  have lhs: "Evaluate (absolute n) (mat_minus_rd ?rd [0] (scalar_times_rd ?rd s [1])) off bbs
             = ?rd (?rd s)"
    using r2' by (simp add: absolute_Evaluate_rd mat_minus_rd_def scalar_times_rd_def
        round_fp_minus)
  from assms(3) d have "0 \<le> s" by linarith
  with assms(2) have "0 \<le> c * s" by simp
  then have "0 \<le> ?rd (c * s)" by (rule round_fp_nonneg)
  then have "0 \<le> ?rd (?rd (c * s) * 1)" by (simp add: round_fp_nonneg)
  then have "?rd (0 - ?rd (?rd (c * s) * 1)) \<le> 0" by (simp add: round_fp_nonpos)
  with r2 d have "?rd (0 - ?rd (?rd (c * s) * 1)) < ?rd (?rd s)" by linarith
  with lhs show ?thesis
    by (simp add: rejected_rd_def absolute_Evaluate_rd)
qed

lemma absolute_accepted_rd:
  "\<not> rejected_rd (round_fp p w) (absolute n)
       \<lparr>iteratePrev = ip, backtrackStepSize = b, searchParameter = c\<rparr>
       [0] [1] 1 off bbs 0"
  by (simp add: rejected_rd_def absolute_Evaluate_rd mat_minus_rd_def scalar_times_rd_def
      round_fp_zero)

text \<open>Halving the stepsize 1: the first \<open>w\<close> products are exact, the next one is
  \<open>2\<^sup>-\<^sup>w\<^sup>-\<^sup>1\<close>, half of the smallest positive number, and is rounded to 0.\<close>

lemma halving_shrink:
  assumes "1 \<le> p"
  shows "k \<le> w \<Longrightarrow> shrink (round_fp p w) (1/2) k 1 = 1 / 2 ^ k"
proof (induction k)
  case 0
  show ?case by simp
next
  case (Suc k)
  then have "shrink (round_fp p w) (1/2) k 1 = 1 / 2 ^ k" by simp
  moreover have "1 / 2 ^ k * (1/2) = (1 / 2 ^ Suc k :: real)" by simp
  ultimately have "shrink (round_fp p w) (1/2) (Suc k) 1 = round_fp p w (1 / 2 ^ Suc k)"
    by (simp only: shrink.simps)
  also have "\<dots> = 1 / 2 ^ Suc k" using Suc.prems assms by (rule round_fp_pow2)
  finally show ?case .
qed

lemma halving_shrink_zero:
  assumes "1 \<le> p"
  shows "shrink (round_fp p w) (1/2) (Suc w) 1 = 0"
proof -
  have "shrink (round_fp p w) (1/2) w 1 = 1 / 2 ^ w"
    using assms by (rule halving_shrink) simp
  moreover have "1 / 2 ^ w * (1/2) = (1 / 2 ^ Suc w :: real)" by simp
  ultimately have "shrink (round_fp p w) (1/2) (Suc w) 1 = round_fp p w (1 / 2 ^ Suc w)"
    by (simp only: shrink.simps)
  then show ?thesis by (simp only: round_fp_underflow)
qed

lemma halving_returns_zero:
  assumes "1 \<le> p" and "0 \<le> c"
  shows "Backtracking_rd (round_fp p w) (absolute n)
           \<lparr>iteratePrev = ip, backtrackStepSize = 1/2, searchParameter = c\<rparr>
           1 [0] [1] 1 off bbs =
         Some (\<lparr>iteratePrev = ip, backtrackStepSize = 1/2, searchParameter = c\<rparr>, 0)"
proof -
  let ?A = "\<lparr>iteratePrev = ip, backtrackStepSize = 1/2, searchParameter = c\<rparr>"
  let ?rd = "round_fp p w"
  have "\<forall>k<Suc w. rejected_rd ?rd (absolute n) ?A [0] [1] 1 off bbs
          (shrink ?rd (backtrackStepSize ?A) k 1)"
  proof (intro allI impI)
    fix k assume "k < Suc w"
    then have k: "k \<le> w" by simp
    then have "(2::real) ^ k \<le> 2 ^ w" by (intro power_increasing) auto
    then have "1 / 2 ^ w \<le> (1 / 2 ^ k :: real)" by (simp add: frac_le)
    with assms have "rejected_rd ?rd (absolute n) ?A [0] [1] 1 off bbs (1 / 2 ^ k)"
      by (intro absolute_rejected_rd)
    with k assms(1) show "rejected_rd ?rd (absolute n) ?A [0] [1] 1 off bbs
          (shrink ?rd (backtrackStepSize ?A) k 1)"
      by (simp add: halving_shrink)
  qed
  moreover have "\<not> rejected_rd ?rd (absolute n) ?A [0] [1] 1 off bbs
          (shrink ?rd (backtrackStepSize ?A) (Suc w) 1)"
    using halving_shrink_zero[OF assms(1), of w] absolute_accepted_rd[of p w n ip "1/2" c off bbs]
    by simp
  ultimately have "Backtracking_rd ?rd (absolute n) ?A 1 [0] [1] 1 off bbs =
      Some (?A, shrink ?rd (backtrackStepSize ?A) (Suc w) 1)"
    by (rule Backtracking_rd_first_pass)
  with halving_shrink_zero[OF assms(1), of w] show ?thesis by simp
qed



text \<open>The objective \<open>x (1 - 2 x)\<^sup>2\<close> at the iterate 0 with the gradient 1, the gradient
  norm 1 and the stepsize \<open>-1\<close>, for a search parameter between 0 and 1/2: the candidate
  \<open>-1\<close> is rejected (the objective at 1 is 1, the bound is at most 1/2), the candidate
  \<open>-1/2\<close> is accepted (the objective at 1/2 is 0, the bound is at least 0).\<close>

lemma cubic_Evaluate_rd: "Evaluate (cubic n) [x] off bbs = x * (1 - 2 * x) ^ 2"
  by (simp add: cubic_def)

lemma negative_step_tests:
  assumes "1 \<le> p" and "1 \<le> w" and "0 \<le> c" and "c \<le> 1/2"
  shows "rejected_rd (round_fp p w) (cubic n)
           \<lparr>iteratePrev = ip, backtrackStepSize = 1/2, searchParameter = c\<rparr>
           [0] [1] 1 off bbs (- 1)"
    and "\<not> rejected_rd (round_fp p w) (cubic n)
           \<lparr>iteratePrev = ip, backtrackStepSize = 1/2, searchParameter = c\<rparr>
           [0] [1] 1 off bbs (- (1/2))"
    and "shrink (round_fp p w) (1/2) 1 (- 1) = - (1/2)"
proof -
  let ?A = "\<lparr>iteratePrev = ip, backtrackStepSize = 1/2, searchParameter = c\<rparr>"
  let ?rd = "round_fp p w"
  have one: "?rd 1 = 1" using round_fp_pow2[of 0 w p] assms(1) by simp
  have hf: "?rd (1/2) = 1/2" using round_fp_pow2[of 1 w p] assms(1,2) by simp
  have le: "\<And>x. 0 \<le> x \<Longrightarrow> x \<le> 1/2 \<Longrightarrow> ?rd x \<le> 1/2"
    using round_fp_le_pow2[of _ 1 w p] assms(1,2) by simp
  have nn: "\<And>x. 0 \<le> x \<Longrightarrow> 0 \<le> ?rd x" by (rule round_fp_nonneg)
  have b1: "?rd (?rd (?rd c)) \<le> 1/2"
    using assms(3,4) by (intro le nn)
  have b2: "0 \<le> ?rd (?rd (?rd (c / 2)))"
    using assms(3) by (intro nn) simp
  show "rejected_rd ?rd (cubic n) ?A [0] [1] 1 off bbs (- 1)"
    using b1 by (simp add: rejected_rd_def cubic_Evaluate_rd mat_minus_rd_def
        scalar_times_rd_def round_fp_minus one)
  show "\<not> rejected_rd ?rd (cubic n) ?A [0] [1] 1 off bbs (- (1/2))"
    using b2 by (simp add: rejected_rd_def cubic_Evaluate_rd mat_minus_rd_def
        scalar_times_rd_def round_fp_minus hf not_less)
  show "shrink ?rd (1/2) 1 (- 1) = - (1/2)"
    by (simp add: round_fp_minus hf)
qed

lemma negative_step_returns:
  assumes "1 \<le> p" and "1 \<le> w" and "0 \<le> c" and "c \<le> 1/2"
  shows "Backtracking_rd (round_fp p w) (cubic n)
           \<lparr>iteratePrev = ip, backtrackStepSize = 1/2, searchParameter = c\<rparr>
           (- 1) [0] [1] 1 off bbs =
         Some (\<lparr>iteratePrev = ip, backtrackStepSize = 1/2, searchParameter = c\<rparr>, - (1/2))"
proof -
  let ?A = "\<lparr>iteratePrev = ip, backtrackStepSize = 1/2, searchParameter = c\<rparr>"
  let ?rd = "round_fp p w"
  note t = negative_step_tests[OF assms]
  have "\<forall>k<1. rejected_rd ?rd (cubic n) ?A [0] [1] 1 off bbs
          (shrink ?rd (backtrackStepSize ?A) k (- 1))"
    using t(1) by simp
  moreover have "\<not> rejected_rd ?rd (cubic n) ?A [0] [1] 1 off bbs
          (shrink ?rd (backtrackStepSize ?A) 1 (- 1))"
    using t(2) t(3) by simp
  ultimately have "Backtracking_rd ?rd (cubic n) ?A (- 1) [0] [1] 1 off bbs =
      Some (?A, shrink ?rd (backtrackStepSize ?A) 1 (- 1))"
    by (rule Backtracking_rd_first_pass)
  with t(3) show ?thesis by simp
qed

text \<open>The search parameter of a new object is the double nearest to 0.1.\<close>

lemma round_fp_tenth:
  assumes "1 \<le> p" and "1 \<le> w"
  shows "0 \<le> round_fp p w (1/10)" and "round_fp p w (1/10) \<le> 1/2"
proof -
  show "0 \<le> round_fp p w (1/10)" by (simp add: round_fp_nonneg)
  show "round_fp p w (1/10) \<le> 1/2"
    using round_fp_le_pow2[of "1/10" 1 w p] assms by simp
qed

subsection \<open>Claims about the line search in double arithmetic\<close>








text \<open>
  C7. Monotone shrink. The claim that \<^verbatim>\<open>Backtracking\<close> never increases \<^verbatim>\<open>stepSize\<close> fails
  for a negative stepsize, which the smoothing step of \<^verbatim>\<open>Update\<close> can produce: in double
  arithmetic, for the objective \<open>x (1 - 2 x)\<^sup>2\<close> at the iterate 0 with its gradient 1,
  the gradient norm 1 and the stepsize \<open>-1\<close>, the candidate \<open>-1\<close> is rejected
  (\<open>f(1) = 1\<close> exceeds the bound 0.1), the candidate \<open>-1/2\<close> is accepted
  (\<open>f(1/2) = 0\<close> does not exceed the bound 0.05), and \<open>-1/2\<close> is greater than \<open>-1\<close>.
\<close>

theorem Backtracking_monotone_counterexample:
  "Backtracking_rd round_double (cubic 1)
     (AdaptiveStepsize_new (1/2) (round_double (1/10))) (- 1) [0] [1] 1 0 1 =
     Some (AdaptiveStepsize_new (1/2) (round_double (1/10)), - (1/2)) \<and>
   \<not> (- (1/2) \<le> (- 1 :: real))"
proof -
  have "Backtracking_rd (round_fp 53 1074) (cubic 1)
     \<lparr>iteratePrev = [], backtrackStepSize = 1/2, searchParameter = round_fp 53 1074 (1/10)\<rparr>
     (- 1) [0] [1] 1 0 1 =
     Some (\<lparr>iteratePrev = [], backtrackStepSize = 1/2,
            searchParameter = round_fp 53 1074 (1/10)\<rparr>, - (1/2))"
    by (rule negative_step_returns[OF _ _ round_fp_tenth]) simp_all
  then show ?thesis
    unfolding round_double_def AdaptiveStepsize_new_def by simp
qed

text \<open>
  C7, as amended. When \<^verbatim>\<open>Backtracking\<close> returns, the stepsize it leaves is the result of
  \<open>n\<close> successive multiplications of the stepsize passed in by \<^verbatim>\<open>backtrackStepSize\<close>, each
  product rounded as the arithmetic rounds it, where \<open>n\<close> is the number of rejected
  candidates: each rejected candidate is followed by the product of itself and
  \<^verbatim>\<open>backtrackStepSize\<close>. When the stepsize passed in is not negative and
  \<^verbatim>\<open>backtrackStepSize\<close> is between 0 and 1, the stepsize returned is at most the stepsize
  passed in, for every rounding that is monotone and leaves 0 and the stepsize passed in
  as they are (as rounding to the nearest double does, both being doubles).
\<close>

theorem Backtracking_monotone:
  assumes "Backtracking_rd rd function this stepSize iterate gradient gradientNorm offset
             backtrackingBatchSize = Some (this', stepSize')"
  shows "(\<exists>n. stepSize' = shrink rd (backtrackStepSize this) n stepSize \<and>
              (\<forall>k<n. rejected_rd rd function this iterate gradient gradientNorm offset
                       backtrackingBatchSize
                       (shrink rd (backtrackStepSize this) k stepSize))) \<and>
         ((\<forall>x y. x \<le> y \<longrightarrow> rd x \<le> rd y) \<and> rd 0 = 0 \<and> rd stepSize = stepSize \<and>
          0 \<le> stepSize \<and> 0 \<le> backtrackStepSize this \<and> backtrackStepSize this \<le> 1
            \<longrightarrow> stepSize' \<le> stepSize)"
proof (intro conjI impI)
  let ?b = "backtrackStepSize this"
  from Backtracking_rd_Some[OF assms]
  obtain n where n: "stepSize' = shrink rd ?b n stepSize"
    and rej: "\<forall>k<n. rejected_rd rd function this iterate gradient gradientNorm offset
                       backtrackingBatchSize (shrink rd ?b k stepSize)"
    by blast
  then show "\<exists>n. stepSize' = shrink rd ?b n stepSize \<and>
              (\<forall>k<n. rejected_rd rd function this iterate gradient gradientNorm offset
                       backtrackingBatchSize (shrink rd ?b k stepSize))"
    by blast
  assume h: "(\<forall>x y. x \<le> y \<longrightarrow> rd x \<le> rd y) \<and> rd 0 = 0 \<and> rd stepSize = stepSize \<and>
          0 \<le> stepSize \<and> 0 \<le> ?b \<and> ?b \<le> 1"
  then have mono: "\<And>x y. x \<le> y \<Longrightarrow> rd x \<le> rd y" and rd0: "rd 0 = 0"
    and rds: "rd stepSize = stepSize" by simp_all
  have "0 \<le> shrink rd ?b m stepSize \<and> shrink rd ?b m stepSize \<le> stepSize" for m
  proof (induction m)
    case 0
    from h show ?case by simp
  next
    case (Suc m)
    let ?s = "shrink rd ?b m stepSize"
    from Suc h have lo: "0 \<le> ?s * ?b" by simp
    from Suc h have "?s * ?b \<le> ?s * 1" by (intro mult_left_mono) auto
    with Suc have hi: "?s * ?b \<le> stepSize" by simp
    from mono[OF lo] rd0 have "0 \<le> rd (?s * ?b)" by simp
    moreover from mono[OF hi] rds have "rd (?s * ?b) \<le> stepSize" by simp
    ultimately show ?case by simp
  qed
  with n show "stepSize' \<le> stepSize" by simp
qed

text \<open>In double arithmetic, the objective \<open>|x|\<close> at the iterate 0 with the stepsize 1 and
  the backtracking step size 1/2: the rounding of doubles is monotone and leaves 0 and 1
  as they are, and the stepsize returned, 0, is at most 1.\<close>

theorem Backtracking_monotone_witness:
  "(\<exists>n. (0::real) = shrink round_double (1/2) n 1) \<and> (0::real) \<le> 1"
proof -
  have h: "Backtracking_rd (round_fp 53 1074) (absolute 1)
     \<lparr>iteratePrev = [], backtrackStepSize = 1/2, searchParameter = round_fp 53 1074 (1/10)\<rparr>
     1 [0] [1] 1 0 1 =
   Some (\<lparr>iteratePrev = [], backtrackStepSize = 1/2,
          searchParameter = round_fp 53 1074 (1/10)\<rparr>, 0)"
    by (rule halving_returns_zero) (simp_all add: round_fp_nonneg)
  have "\<forall>x y. x \<le> y \<longrightarrow> round_fp 53 1074 x \<le> round_fp 53 1074 y"
    by (simp add: round_fp_mono)
  moreover have "round_fp 53 1074 0 = 0" by (rule round_fp_zero)
  moreover have "round_fp 53 1074 1 = 1" using round_fp_pow2[of 0 1074 53] by simp
  ultimately show ?thesis
    using Backtracking_monotone[OF h] by (auto simp: round_double_def)
qed

end
